theory Spec2Isabelle
  imports Main "HOL-Library.AList" "HOL-Library.Word"
begin

section \<open>Values, rows and the bookmark state\<close>

text \<open>
  The values a row or a bookmark can hold: what the driver decodes a document's fields
  to, and what a JSON state file is loaded as. A float is kept as its 64 bits.
\<close>

datatype pyval =
    PNone
  | PBool bool
  | PInt int
  | PInt64 int
  | PFloat "64 word"
  | PStr string
  | PBytes "8 word list"
  | PDatetime int
  | PTimestamp nat nat
  | PObjectId "8 word list"
  | PUUID "128 word"
  | PDecimal128 "128 word"
  | PList "pyval list"
  | PDict "(string \<times> pyval) list"

text \<open>
  Python's truth value of an object, as \<^verbatim>\<open>if replication_key_value:\<close> tests it:
  \<^verbatim>\<open>None\<close>, \<^verbatim>\<open>False\<close>, a zero number, an empty string, bytes or container are false;
  a float is false when all its bits but the sign are zero; the driver's datetime,
  Timestamp, ObjectId, UUID and Decimal128 objects define neither \<^verbatim>\<open>__bool__\<close> nor
  \<^verbatim>\<open>__len__\<close> and are always true; Int64 is a subclass of int.
\<close>

fun truthy :: "pyval \<Rightarrow> bool" where
  "truthy PNone = False"
| "truthy (PBool b) = b"
| "truthy (PInt i) = (i \<noteq> 0)"
| "truthy (PInt64 i) = (i \<noteq> 0)"
| "truthy (PFloat w) = (take_bit 63 w \<noteq> 0)"
| "truthy (PStr s) = (s \<noteq> [])"
| "truthy (PBytes bs) = (bs \<noteq> [])"
| "truthy (PDatetime t) = True"
| "truthy (PTimestamp t i) = True"
| "truthy (PObjectId oid) = True"
| "truthy (PUUID u) = True"
| "truthy (PDecimal128 d) = True"
| "truthy (PList xs) = (xs \<noteq> [])"
| "truthy (PDict kvs) = (kvs \<noteq> [])"

text \<open>\<^verbatim>\<open>value.__class__.__name__\<close>\<close>

fun class_name :: "pyval \<Rightarrow> string" where
  "class_name PNone = ''NoneType''"
| "class_name (PBool b) = ''bool''"
| "class_name (PInt i) = ''int''"
| "class_name (PInt64 i) = ''Int64''"
| "class_name (PFloat w) = ''float''"
| "class_name (PStr s) = ''str''"
| "class_name (PBytes bs) = ''bytes''"
| "class_name (PDatetime t) = ''datetime''"
| "class_name (PTimestamp t i) = ''Timestamp''"
| "class_name (PObjectId oid) = ''ObjectId''"
| "class_name (PUUID u) = ''UUID''"
| "class_name (PDecimal128 d) = ''Decimal128''"
| "class_name (PList xs) = ''list''"
| "class_name (PDict kvs) = ''dict''"

text \<open>
  A dict is an association list with distinct keys, in insertion order; \<open>d.get(k)\<close>
  gives \<^verbatim>\<open>None\<close> for a missing key, and \<open>d[k] = v\<close> is \<^const>\<open>AList.update\<close>.
\<close>

definition dict_get :: "(string \<times> pyval) list \<Rightarrow> string \<Rightarrow> pyval" where
  "dict_get d k = (case map_of d k of None \<Rightarrow> PNone | Some v \<Rightarrow> v)"

type_synonym row = "(string \<times> pyval) list"

text \<open>
  \<^verbatim>\<open>row.get(replication_key_name)\<close>: the name is \<^verbatim>\<open>None\<close> when the stream's metadata
  designates no replication key, and no field of a document is named \<^verbatim>\<open>None\<close>.
\<close>

definition row_get :: "row \<Rightarrow> string option \<Rightarrow> pyval" where
  "row_get row k = (case k of None \<Rightarrow> PNone | Some n \<Rightarrow> dict_get row n)"

text \<open>
  The process-wide state: \<^verbatim>\<open>{'bookmarks': {<stream id>: {<key>: <value>}}, ...}\<close>.
  \<open>bookmarks\<close> is \<open>None\<close> when the state has no \<^verbatim>\<open>'bookmarks'\<close> entry.
\<close>

type_synonym bookmark = "(string \<times> pyval) list"

record state =
  bookmarks :: "(string \<times> bookmark) list option"
  other_keys :: "(string \<times> pyval) list"

text \<open>\<^verbatim>\<open>state.get('bookmarks', {}).get(tap_stream_id, {})\<close>\<close>

definition stream_bookmark :: "state \<Rightarrow> string \<Rightarrow> bookmark" where
  "stream_bookmark s tap_stream_id =
     (case bookmarks s of
        None \<Rightarrow> []
      | Some bs \<Rightarrow> (case map_of bs tap_stream_id of None \<Rightarrow> [] | Some b \<Rightarrow> b))"

text \<open>
  The state is a mutable object that \<^verbatim>\<open>sync_collection\<close>, \<^verbatim>\<open>update_bookmark\<close> and the
  singer functions change in place, and that \<^verbatim>\<open>copy.deepcopy\<close> duplicates. The store
  is a list of state objects; a reference is an index into it.
\<close>

type_synonym heap = "state list"

text \<open>
  singer's \<^verbatim>\<open>get_bookmark(state, tap_stream_id, key)\<close>:
  \<^verbatim>\<open>state.get('bookmarks', {}).get(tap_stream_id, {}).get(key, None)\<close>.
\<close>

definition get_bookmark :: "heap \<Rightarrow> nat \<Rightarrow> string \<Rightarrow> string \<Rightarrow> pyval" where
  "get_bookmark h state tap_stream_id key = dict_get (stream_bookmark (h ! state) tap_stream_id) key"

text \<open>
  singer's \<^verbatim>\<open>write_bookmark(state, tap_stream_id, key, val)\<close>: it creates
  \<^verbatim>\<open>state['bookmarks']\<close> and \<^verbatim>\<open>state['bookmarks'][tap_stream_id]\<close> where they are missing,
  sets \<^verbatim>\<open>state['bookmarks'][tap_stream_id][key] = val\<close> and returns the same object.
\<close>

definition set_bookmark :: "state \<Rightarrow> string \<Rightarrow> string \<Rightarrow> pyval \<Rightarrow> state" where
  "set_bookmark s tap_stream_id key val =
     (let bs = (case bookmarks s of None \<Rightarrow> [] | Some bs \<Rightarrow> bs)
      in s\<lparr>bookmarks :=
             Some (AList.update tap_stream_id
                     (AList.update key val (stream_bookmark s tap_stream_id)) bs)\<rparr>)"

definition write_bookmark :: "heap \<Rightarrow> nat \<Rightarrow> string \<Rightarrow> string \<Rightarrow> pyval \<Rightarrow> heap" where
  "write_bookmark h state tap_stream_id key val =
     h[state := set_bookmark (h ! state) tap_stream_id key val]"

section \<open>The helpers of \<^verbatim>\<open>tap_mongodb.sync_strategies.common\<close>\<close>

datatype exn = AttributeError | ZeroDivisionError | Raised string

type_synonym 'ty schema = "(string \<times> 'ty) list"

record stream_metadata =
  replication_key :: "string option"

record stream =
  stream_id :: string
  top_level_metadata :: "stream_metadata option"

text \<open>
  \<^verbatim>\<open>incremental.py\<close> calls these functions and this constant of the module
  \<^verbatim>\<open>common\<close>, whose source is not part of the verified file; they are parameters of
  the model. A helper that raises returns \<open>Inl\<close>. \<open>row_to_schema\<close> changes the schema in
  place and returns whether it changed it; here it returns the new schema too.
\<close>

record ('ty, 'rec) common =
  class_to_string :: "pyval \<Rightarrow> string \<Rightarrow> exn + string"
  string_to_class :: "pyval \<Rightarrow> pyval \<Rightarrow> exn + pyval"
  row_to_schema :: "'ty schema \<Rightarrow> row \<Rightarrow> 'ty schema \<times> bool"
  calculate_destination_stream_name :: "stream \<Rightarrow> string"
  row_to_singer_record :: "stream \<Rightarrow> row \<Rightarrow> pyval \<Rightarrow> pyval \<Rightarrow> 'rec"
  UPDATE_BOOKMARK_PERIOD :: nat

section \<open>\<^verbatim>\<open>update_bookmark\<close>\<close>

definition update_bookmark ::
  "('ty, 'rec) common \<Rightarrow> row \<Rightarrow> heap \<Rightarrow> nat \<Rightarrow> string \<Rightarrow> string option \<Rightarrow> exn + heap" where
  "update_bookmark C row h state tap_stream_id replication_key_name =
     (let replication_key_value = row_get row replication_key_name
      in if truthy replication_key_value then
           (let replication_key_type = class_name replication_key_value
            in case class_to_string C replication_key_value replication_key_type of
                 Inl e \<Rightarrow> Inl e
               | Inr replication_key_value_bookmark \<Rightarrow>
                   (let h1 = write_bookmark h state tap_stream_id ''replication_key_value''
                               (PStr replication_key_value_bookmark)
                    in Inr (write_bookmark h1 state tap_stream_id ''replication_key_type''
                              (PStr replication_key_type))))
         else Inr h)"

section \<open>Messages, the driver and the trace of a run\<close>

text \<open>
  The messages \<^verbatim>\<open>singer.write_message\<close> is given. A STATE message holds a reference to
  the object passed as its \<open>value\<close>; a SCHEMA message is recorded with the schema as it
  is when the message is written.
\<close>

datatype ('ty, 'rec) message =
    ActivateVersionMessage string pyval
  | StateMessage nat
  | SchemaMessage string "'ty schema" "string list"
  | RecordMessage 'rec

datatype direction = ASCENDING

text \<open>\<^verbatim>\<open>find_filter\<close> is \<^verbatim>\<open>{}\<close> or \<^verbatim>\<open>{replication_key_name: {'$gte': value}}\<close>.\<close>

type_synonym find_filter = "(string option \<times> (string \<times> pyval) list) list"

text \<open>
  What a run does to the outside, in order: a message written to the sink, the call
  \<^verbatim>\<open>collection.find(find_filter, projection, sort=...)\<close>, and the cursor closed when the
  \<^verbatim>\<open>with\<close> block is left. The trace pairs each effect with the store at that moment.
\<close>

datatype ('ty, 'rec) event =
    Emit "('ty, 'rec) message"
  | Find find_filter "string option" "(string option \<times> direction) list"
  | CloseCursor

type_synonym ('ty, 'rec) trace = "(('ty, 'rec) event \<times> heap) list"

text \<open>
  The cursor the driver returns: the rows it yields, and the exception it raises after
  them where reading fails. \<^verbatim>\<open>collection.find\<close> itself may raise.
\<close>

record cursor =
  rows :: "row list"
  failure :: "exn option"

type_synonym collection =
  "find_filter \<Rightarrow> string option \<Rightarrow> (string option \<times> direction) list \<Rightarrow> exn + cursor"

text \<open>
  What a run changes in place: the store, and this stream's entries of the counters
  \<^verbatim>\<open>common.SCHEMA_COUNT\<close> and \<^verbatim>\<open>common.COUNTS\<close> (the timers \<^verbatim>\<open>SCHEMA_TIMES\<close> and \<^verbatim>\<open>TIMES\<close>
  hold elapsed wall-clock time and are left out).
\<close>

record world =
  heap :: heap
  SCHEMA_COUNT :: nat
  COUNTS :: nat

text \<open>\<^verbatim>\<open>copy.deepcopy(state)\<close>: a new object with the contents of the state.\<close>

definition deepcopy :: "heap \<Rightarrow> nat \<Rightarrow> nat \<times> heap" where
  "deepcopy h state = (length h, h @ [h ! state])"

section \<open>\<^verbatim>\<open>sync_collection\<close>\<close>

text \<open>
  The body of \<^verbatim>\<open>for row in cursor\<close>, lines 121 to 144, for one row. The loop's
  variables are the world, the running schema and \<open>rows_saved\<close>; the result is the
  trace of the turn, their new values, and the exception raised, if any.
\<close>

definition sync_row ::
  "('ty, 'rec) common \<Rightarrow> stream \<Rightarrow> nat \<Rightarrow> string option \<Rightarrow> pyval \<Rightarrow> pyval \<Rightarrow> row \<Rightarrow>
   world \<times> 'ty schema \<times> nat \<Rightarrow>
   ('ty, 'rec) trace \<times> (world \<times> 'ty schema \<times> nat) \<times> exn option" where
  "sync_row C stream state replication_key_name stream_version time_extracted row vars =
     (case vars of (w, schema, rows_saved) \<Rightarrow>
     (let (schema1, changed) = row_to_schema C schema row;
          t1 = (if changed
                then [(Emit (SchemaMessage (calculate_destination_stream_name C stream)
                               schema1 [''_id'']), heap w)]
                else []);
          w1 = (if changed then w\<lparr>SCHEMA_COUNT := SCHEMA_COUNT w + 1\<rparr> else w);
          record_message = row_to_singer_record C stream row stream_version time_extracted;
          t2 = t1 @ [(Emit (RecordMessage record_message), heap w1)];
          rows_saved1 = rows_saved + 1
      in case update_bookmark C row (heap w1) state (stream_id stream) replication_key_name of
           Inl e \<Rightarrow> (t2, (w1, schema1, rows_saved1), Some e)
         | Inr h2 \<Rightarrow>
             if UPDATE_BOOKMARK_PERIOD C = 0
             then (t2, (w1\<lparr>heap := h2\<rparr>, schema1, rows_saved1), Some ZeroDivisionError)
             else if rows_saved1 mod UPDATE_BOOKMARK_PERIOD C = 0
             then (let (a, h3) = deepcopy h2 state
                   in (t2 @ [(Emit (StateMessage a), h3)],
                       (w1\<lparr>heap := h3\<rparr>, schema1, rows_saved1), None))
             else (t2, (w1\<lparr>heap := h2\<rparr>, schema1, rows_saved1), None)))"

text \<open>
  The loop over the rows the cursor yields: it ends with the first turn that raises.
\<close>

fun sync_rows ::
  "('ty, 'rec) common \<Rightarrow> stream \<Rightarrow> nat \<Rightarrow> string option \<Rightarrow> pyval \<Rightarrow> pyval \<Rightarrow> row list \<Rightarrow>
   world \<times> 'ty schema \<times> nat \<Rightarrow>
   ('ty, 'rec) trace \<times> (world \<times> 'ty schema \<times> nat) \<times> exn option" where
  "sync_rows C stream state replication_key_name stream_version time_extracted [] vars =
     ([], vars, None)"
| "sync_rows C stream state replication_key_name stream_version time_extracted (row # rest) vars =
     (case sync_row C stream state replication_key_name stream_version time_extracted row vars of
        (t, vars1, Some e) \<Rightarrow> (t, vars1, Some e)
      | (t, vars1, None) \<Rightarrow>
          (case sync_rows C stream state replication_key_name stream_version time_extracted
                  rest vars1 of
             (t', vars2, r) \<Rightarrow> (t @ t', vars2, r)))"

text \<open>
  Lines 64 to 76 of \<^verbatim>\<open>sync_collection\<close>: whether this is a first run, the version of
  the run, and the store once the version is written back.
\<close>

definition resolve_version :: "heap \<Rightarrow> nat \<Rightarrow> string \<Rightarrow> int \<Rightarrow> bool \<times> pyval \<times> heap" where
  "resolve_version h state tap_stream_id now_ms =
     (let first_run = (get_bookmark h state tap_stream_id ''version'' = PNone);
          stream_version =
            (if first_run then PInt now_ms
             else get_bookmark h state tap_stream_id ''version'')
      in (first_run, stream_version,
          write_bookmark h state tap_stream_id ''version'' stream_version))"

text \<open>
  Lines 92 and 97 to 103: the filter of the query, from the stream's bookmark as line 89
  reads it. \<^verbatim>\<open>string_to_class\<close> may raise.
\<close>

definition build_find_filter ::
  "('ty, 'rec) common \<Rightarrow> bookmark \<Rightarrow> string option \<Rightarrow> exn + find_filter" where
  "build_find_filter C stream_state replication_key_name =
     (let replication_key_value_bookmark = dict_get stream_state ''replication_key_value''
      in if truthy replication_key_value_bookmark
         then (case string_to_class C replication_key_value_bookmark
                      (dict_get stream_state ''replication_key_type'') of
                 Inl e \<Rightarrow> Inl e
               | Inr v \<Rightarrow> Inr [(replication_key_name, [(''$gte'', v)])])
         else Inr [])"

text \<open>
  \<^verbatim>\<open>sync_collection(collection, stream, state, projection)\<close>. \<open>state\<close> is \<open>None\<close> or a
  reference into the store. \<open>now_ms\<close> is what \<^verbatim>\<open>int(time.time() * 1000)\<close> gives on a first
  run, \<open>time_extracted\<close> what \<^verbatim>\<open>utils.now()\<close> gives. The result is the trace, the world as
  the run leaves it, and the exception raised, if any.
\<close>

definition sync_collection ::
  "('ty, 'rec) common \<Rightarrow> collection \<Rightarrow> stream \<Rightarrow> nat option \<Rightarrow> string option \<Rightarrow> int \<Rightarrow> pyval \<Rightarrow>
   world \<Rightarrow> ('ty, 'rec) trace \<times> world \<times> exn option" where
  "sync_collection C collection stream state_opt projection now_ms time_extracted w =
     (case state_opt of
        None \<Rightarrow> ([], w, Some AttributeError)
      | Some state \<Rightarrow>
     (let tap_stream_id = stream_id stream;
          stream_metadata = top_level_metadata stream;
          (first_run, stream_version, h1) = resolve_version (heap w) state tap_stream_id now_ms;
          activate_version_message =
            ActivateVersionMessage (calculate_destination_stream_name C stream) stream_version;
          t1 = (if first_run then [(Emit activate_version_message, h1)] else []);
          stream_state = stream_bookmark (h1 ! state) tap_stream_id
      in case stream_metadata of
           None \<Rightarrow> (t1, w\<lparr>heap := h1\<rparr>, Some AttributeError)
         | Some md \<Rightarrow>
     (let replication_key_name = replication_key md;
          (a, h2) = deepcopy h1 state;
          t2 = t1 @ [(Emit (StateMessage a), h2)]
      in case build_find_filter C stream_state replication_key_name of
           Inl e \<Rightarrow> (t2, w\<lparr>heap := h2\<rparr>, Some e)
         | Inr find_filter \<Rightarrow>
     (let sort_spec = [(replication_key_name, ASCENDING)];
          t3 = t2 @ [(Find find_filter projection sort_spec, h2)]
      in case collection find_filter projection sort_spec of
           Inl e \<Rightarrow> (t3, w\<lparr>heap := h2\<rparr>, Some e)
         | Inr cursor \<Rightarrow>
     (let (t4, (w4, schema, rows_saved), r) =
            sync_rows C stream state replication_key_name stream_version time_extracted
              (rows cursor) (w\<lparr>heap := h2\<rparr>, [], 0)
      in case (case r of Some e \<Rightarrow> Some e | None \<Rightarrow> failure cursor) of
           Some e \<Rightarrow> (t3 @ t4 @ [(CloseCursor, heap w4)], w4, Some e)
         | None \<Rightarrow>
             (let w5 = w4\<lparr>COUNTS := COUNTS w4 + rows_saved\<rparr>
              in (t3 @ t4 @ [(CloseCursor, heap w5),
                             (Emit activate_version_message, heap w5)], w5, None)))))))"

section \<open>What the claims speak of\<close>

text \<open>
  The bookmark decoded as line 102 decodes it for the filter: \<^verbatim>\<open>string_to_class\<close> of
  the stored \<^verbatim>\<open>replication_key_value\<close> and \<^verbatim>\<open>replication_key_type\<close>.
\<close>

definition bookmarked_value :: "('ty, 'rec) common \<Rightarrow> heap \<Rightarrow> nat \<Rightarrow> string \<Rightarrow> exn + pyval" where
  "bookmarked_value C h state tap_stream_id =
     string_to_class C (get_bookmark h state tap_stream_id ''replication_key_value'')
       (get_bookmark h state tap_stream_id ''replication_key_type'')"

text \<open>
  What the specification asks of the two missing helpers for a key value \<open>k\<close>: where
  \<^verbatim>\<open>class_to_string\<close> serialises \<open>k\<close>, \<^verbatim>\<open>string_to_class\<close> gives \<open>k\<close> back from the string
  and the name of the class of \<open>k\<close>.
\<close>

definition round_trips :: "('ty, 'rec) common \<Rightarrow> pyval \<Rightarrow> bool" where
  "round_trips C k \<longleftrightarrow>
     (case class_to_string C k (class_name k) of
        Inl e \<Rightarrow> True
      | Inr s \<Rightarrow> string_to_class C (PStr s) (PStr (class_name k)) = Inr k)"

text \<open>
  The driver's reading of a filter: a document passes \<^verbatim>\<open>{k: {'$gte': v}}\<close> when its
  value for \<open>k\<close> is at or above \<open>v\<close> in the driver's order \<open>le\<close>, and every document
  passes \<^verbatim>\<open>{}\<close>.
\<close>

definition filter_accepts :: "(pyval \<Rightarrow> pyval \<Rightarrow> bool) \<Rightarrow> find_filter \<Rightarrow> row \<Rightarrow> bool" where
  "filter_accepts le find_filter row =
     list_all (\<lambda>(k, conds).
        list_all (\<lambda>(op, v). op = ''$gte'' \<and> le v (row_get row k)) conds) find_filter"

text \<open>
  \<open>h'\<close> has every object of \<open>h\<close>, each with the contents it has in \<open>h\<close>, but for the
  state object itself.
\<close>

definition keeps_objects :: "nat \<Rightarrow> heap \<Rightarrow> heap \<Rightarrow> bool" where
  "keeps_objects state h h' \<longleftrightarrow>
     length h \<le> length h' \<and> (\<forall>a < length h. a \<noteq> state \<longrightarrow> h' ! a = h ! a)"

fun is_state :: "('ty, 'rec) event \<Rightarrow> bool" where
  "is_state (Emit (StateMessage a)) = True"
| "is_state e = False"

fun is_schema :: "('ty, 'rec) event \<Rightarrow> bool" where
  "is_schema (Emit (SchemaMessage n s k)) = True"
| "is_schema e = False"

fun is_activate_version :: "('ty, 'rec) event \<Rightarrow> bool" where
  "is_activate_version (Emit (ActivateVersionMessage n v)) = True"
| "is_activate_version e = False"

fun is_find :: "('ty, 'rec) event \<Rightarrow> bool" where
  "is_find (Find f p s) = True"
| "is_find e = False"

text \<open>The field names of a row.\<close>

definition fields :: "row \<Rightarrow> string set" where
  "fields row = fst ` set row"

section \<open>\<^verbatim>\<open>common.row_to_schema\<close>, from the specification\<close>

text \<open>
  Modelled from the spec: \<^verbatim>\<open>common.row_to_schema\<close>, whose source is missing. The
  specification has it merge the row's field shape into the running schema, a field
  being new when its name is not yet in the schema, whatever the type of its value, and
  report whether any field was new. \<open>infer\<close> is the type recorded for a value.
\<close>

fun spec_row_to_schema :: "(pyval \<Rightarrow> 'ty) \<Rightarrow> 'ty schema \<Rightarrow> row \<Rightarrow> 'ty schema \<times> bool" where
  "spec_row_to_schema infer schema [] = (schema, False)"
| "spec_row_to_schema infer schema ((field, val) # rest) =
     (if map_of schema field = None
      then (fst (spec_row_to_schema infer (schema @ [(field, infer val)]) rest), True)
      else spec_row_to_schema infer schema rest)"

section \<open>A concrete instance, for running the model\<close>

text \<open>
  Helpers that serialise \<^verbatim>\<open>int\<close> and \<^verbatim>\<open>str\<close> keys as Python's \<^verbatim>\<open>str\<close> does and read
  them back as \<^verbatim>\<open>int\<close> and \<^verbatim>\<open>str\<close> do, a checkpoint period of 2, and a driver that
  refuses a sort key that is not a string and otherwise yields the documents the filter
  accepts.
\<close>

fun str_nat :: "nat \<Rightarrow> string" where
  "str_nat n =
     (if n < 10 then [char_of (48 + n)]
      else str_nat (n div 10) @ [char_of (48 + n mod 10)])"

declare str_nat.simps [simp del]

definition str_int :: "int \<Rightarrow> string" where
  "str_int i = (if i < 0 then CHR ''-'' # str_nat (nat (- i)) else str_nat (nat i))"

fun parse_nat :: "nat \<Rightarrow> string \<Rightarrow> nat option" where
  "parse_nat acc [] = Some acc"
| "parse_nat acc (c # cs) =
     (let d = (of_char c :: nat)
      in if 48 \<le> d \<and> d \<le> 57 then parse_nat (10 * acc + (d - 48)) cs else None)"

definition parse_int :: "string \<Rightarrow> int option" where
  "parse_int s =
     (case s of
        [] \<Rightarrow> None
      | c # cs \<Rightarrow>
          if c = CHR ''-''
          then (if cs = [] then None else map_option (\<lambda>n. - int n) (parse_nat 0 cs))
          else map_option int (parse_nat 0 s))"

definition example_class_to_string :: "pyval \<Rightarrow> string \<Rightarrow> exn + string" where
  "example_class_to_string key_value key_type =
     (case key_value of
        PInt i \<Rightarrow> Inr (str_int i)
      | PStr s \<Rightarrow> Inr s
      | _ \<Rightarrow> Inl (Raised ''UnsupportedKeyTypeException''))"

definition example_string_to_class :: "pyval \<Rightarrow> pyval \<Rightarrow> exn + pyval" where
  "example_string_to_class str_value type_value =
     (case str_value of
        PStr s \<Rightarrow>
          if type_value = PStr ''int''
          then (case parse_int s of None \<Rightarrow> Inl (Raised ''ValueError'') | Some i \<Rightarrow> Inr (PInt i))
          else if type_value = PStr ''str'' then Inr (PStr s)
          else Inl (Raised ''UnsupportedKeyTypeException'')
      | _ \<Rightarrow> Inl (Raised ''TypeError''))"

definition example_common :: "(string, string \<times> row \<times> pyval \<times> pyval) common" where
  "example_common =
     \<lparr>class_to_string = example_class_to_string,
      string_to_class = example_string_to_class,
      row_to_schema = spec_row_to_schema class_name,
      calculate_destination_stream_name = stream_id,
      row_to_singer_record = (\<lambda>stream row version time_extracted.
         (stream_id stream, row, version, time_extracted)),
      UPDATE_BOOKMARK_PERIOD = 2\<rparr>"

definition example_le :: "pyval \<Rightarrow> pyval \<Rightarrow> bool" where
  "example_le u v =
     (case u of
        PNone \<Rightarrow> True
      | PInt a \<Rightarrow> (case v of PInt b \<Rightarrow> a \<le> b | _ \<Rightarrow> False)
      | _ \<Rightarrow> u = v)"

definition example_collection :: "row list \<Rightarrow> collection" where
  "example_collection docs find_filter projection sort_spec =
     (if list_ex (\<lambda>(k, d). k = None) sort_spec then Inl (Raised ''TypeError'')
      else Inr \<lparr>rows = filter (filter_accepts example_le find_filter) docs, failure = None\<rparr>)"

definition example_stream :: stream where
  "example_stream =
     \<lparr>stream_id = ''shop-orders'',
      top_level_metadata = Some \<lparr>replication_key = Some ''updated_at''\<rparr>\<rparr>"

definition example_docs :: "row list" where
  "example_docs =
     [[(''_id'', PInt 7), (''updated_at'', PInt 1)],
      [(''_id'', PInt 8), (''updated_at'', PInt 2)],
      [(''_id'', PInt 9), (''updated_at'', PInt 3), (''note'', PStr ''late'')]]"

definition empty_state :: state where
  "empty_state = \<lparr>bookmarks = None, other_keys = []\<rparr>"

definition example_world :: world where
  "example_world = \<lparr>heap = [empty_state], SCHEMA_COUNT = 0, COUNTS = 0\<rparr>"

text \<open>
  A first run over the three documents, from a state with no bookmarks, at
  1700000000000 ms.
\<close>

definition example_run ::
  "(string, string \<times> row \<times> pyval \<times> pyval) trace \<times> world \<times> exn option" where
  "example_run =
     sync_collection example_common (example_collection example_docs) example_stream
       (Some 0) None 1700000000000 (PDatetime 0) example_world"

text \<open>
  A later run: the state holds version 5 and the bookmark of the key 2, and the run
  resumes from there.
\<close>

definition resumed_world :: world where
  "resumed_world =
     \<lparr>heap = [\<lparr>bookmarks = Some [(''shop-orders'',
                   [(''version'', PInt 5),
                    (''replication_key_value'', PStr ''2''),
                    (''replication_key_type'', PStr ''int'')])],
               other_keys = []\<rparr>],
      SCHEMA_COUNT = 0, COUNTS = 0\<rparr>"

definition resumed_run ::
  "(string, string \<times> row \<times> pyval \<times> pyval) trace \<times> world \<times> exn option" where
  "resumed_run =
     sync_collection example_common (example_collection example_docs) example_stream
       (Some 0) None 1700000000000 (PDatetime 0) resumed_world"

text \<open>The loop alone, over some of the documents, from the state with no bookmarks.\<close>

definition example_loop ::
  "row list \<Rightarrow> (string, string \<times> row \<times> pyval \<times> pyval) trace
     \<times> (world \<times> string schema \<times> nat) \<times> exn option" where
  "example_loop rs =
     sync_rows example_common example_stream 0 (Some ''updated_at'') (PInt 1) (PDatetime 0)
       rs (example_world, [], 0)"

text \<open>
  A state whose bookmark for the stream is the empty string, as a state file can hold
  it, and the run from it.
\<close>

definition blank_bookmark_world :: world where
  "blank_bookmark_world =
     \<lparr>heap = [\<lparr>bookmarks = Some [(''shop-orders'',
                   [(''version'', PInt 5),
                    (''replication_key_value'', PStr ''''),
                    (''replication_key_type'', PStr ''str'')])],
               other_keys = []\<rparr>],
      SCHEMA_COUNT = 0, COUNTS = 0\<rparr>"

definition blank_bookmark_run ::
  "(string, string \<times> row \<times> pyval \<times> pyval) trace \<times> world \<times> exn option" where
  "blank_bookmark_run =
     sync_collection example_common (example_collection example_docs) example_stream
       (Some 0) None 1700000000000 (PDatetime 0) blank_bookmark_world"

text \<open>
  The stream with a top-level metadata entry that designates no replication key, and the
  first run over it.
\<close>

definition keyless_stream :: stream where
  "keyless_stream =
     \<lparr>stream_id = ''shop-orders'', top_level_metadata = Some \<lparr>replication_key = None\<rparr>\<rparr>"

definition keyless_run ::
  "(string, string \<times> row \<times> pyval \<times> pyval) trace \<times> world \<times> exn option" where
  "keyless_run =
     sync_collection example_common (example_collection example_docs) keyless_stream
       (Some 0) None 1700000000000 (PDatetime 0) example_world"

section \<open>The bookmark functions\<close>

lemma dict_get_update:
  "dict_get (AList.update k v d) k' = (if k' = k then v else dict_get d k')"
  by (simp add: dict_get_def update_conv')

lemma stream_bookmark_set_bookmark:
  "stream_bookmark (set_bookmark s i k v) j =
     (if j = i then AList.update k v (stream_bookmark s i) else stream_bookmark s j)"
  by (simp add: set_bookmark_def stream_bookmark_def update_conv' split: option.splits)

lemma length_write_bookmark: "length (write_bookmark h state i k v) = length h"
  by (simp add: write_bookmark_def)

lemma nth_write_bookmark_other: "a \<noteq> state \<Longrightarrow> write_bookmark h state i k v ! a = h ! a"
  by (simp add: write_bookmark_def)

lemma get_bookmark_write_bookmark:
  "state < length h \<Longrightarrow>
   get_bookmark (write_bookmark h state i k v) state j k' =
     (if j = i \<and> k' = k then v else get_bookmark h state j k')"
  by (simp add: get_bookmark_def write_bookmark_def stream_bookmark_set_bookmark dict_get_update)

section \<open>\<^verbatim>\<open>update_bookmark\<close>: when it writes\<close>

lemma update_bookmark_falsy:
  "\<not> truthy (row_get row name) \<Longrightarrow> update_bookmark C row h state i name = Inr h"
  by (simp add: update_bookmark_def)

lemma update_bookmark_raises:
  "truthy (row_get row name) \<Longrightarrow>
   class_to_string C (row_get row name) (class_name (row_get row name)) = Inl e \<Longrightarrow>
   update_bookmark C row h state i name = Inl e"
  by (simp add: update_bookmark_def)

lemma update_bookmark_writes:
  "truthy (row_get row name) \<Longrightarrow>
   class_to_string C (row_get row name) (class_name (row_get row name)) = Inr s \<Longrightarrow>
   update_bookmark C row h state i name =
     Inr (write_bookmark (write_bookmark h state i ''replication_key_value'' (PStr s))
            state i ''replication_key_type'' (PStr (class_name (row_get row name))))"
  by (simp add: update_bookmark_def)

lemma update_bookmark_length:
  "update_bookmark C row h state i name = Inr h' \<Longrightarrow> length h' = length h"
  by (auto simp: update_bookmark_def Let_def length_write_bookmark split: if_splits sum.splits)

lemma update_bookmark_other:
  "update_bookmark C row h state i name = Inr h' \<Longrightarrow> a \<noteq> state \<Longrightarrow> h' ! a = h ! a"
  by (auto simp: update_bookmark_def Let_def nth_write_bookmark_other split: if_splits sum.splits)

text \<open>
  C5, as the code has it. \<^verbatim>\<open>update_bookmark\<close> overwrites the stored
  \<^verbatim>\<open>replication_key_value\<close>, with the string \<^verbatim>\<open>class_to_string\<close> returns, and
  \<^verbatim>\<open>replication_key_type\<close>, with the name of the value's class, exactly when the row's
  value for the replication key is true in Python's sense (and raises what
  \<^verbatim>\<open>class_to_string\<close> raises, writing nothing); when the field is absent, \<^verbatim>\<open>None\<close> or
  another false value, the store is left as it is.
\<close>

theorem update_bookmark_overwrites_when_truthy:
  assumes "state < length h"
  shows "(truthy (row_get row name) \<longrightarrow>
            (case class_to_string C (row_get row name) (class_name (row_get row name)) of
               Inl e \<Rightarrow> update_bookmark C row h state i name = Inl e
             | Inr s \<Rightarrow>
                 (\<exists>h'. update_bookmark C row h state i name = Inr h' \<and>
                    get_bookmark h' state i ''replication_key_value'' = PStr s \<and>
                    get_bookmark h' state i ''replication_key_type''
                      = PStr (class_name (row_get row name))))) \<and>
         (\<not> truthy (row_get row name) \<longrightarrow> update_bookmark C row h state i name = Inr h)"
proof (intro conjI impI)
  assume t: "truthy (row_get row name)"
  show "case class_to_string C (row_get row name) (class_name (row_get row name)) of
          Inl e \<Rightarrow> update_bookmark C row h state i name = Inl e
        | Inr s \<Rightarrow>
            (\<exists>h'. update_bookmark C row h state i name = Inr h' \<and>
               get_bookmark h' state i ''replication_key_value'' = PStr s \<and>
               get_bookmark h' state i ''replication_key_type''
                 = PStr (class_name (row_get row name)))"
  proof (cases "class_to_string C (row_get row name) (class_name (row_get row name))")
    case (Inl e)
    then show ?thesis using t by (simp add: update_bookmark_raises)
  next
    case (Inr s)
    then show ?thesis
      using t assms
      by (simp add: update_bookmark_writes get_bookmark_write_bookmark length_write_bookmark)
  qed
next
  assume "\<not> truthy (row_get row name)"
  then show "update_bookmark C row h state i name = Inr h"
    by (rule update_bookmark_falsy)
qed

theorem update_bookmark_overwrites_when_truthy_witness:
  "(0::nat) < length [empty_state] \<and>
   truthy (row_get [(''updated_at'', PInt 5)] (Some ''updated_at'')) \<and>
   (\<exists>h'. update_bookmark example_common [(''updated_at'', PInt 5)] [empty_state] 0
            ''shop-orders'' (Some ''updated_at'') = Inr h' \<and>
      get_bookmark h' 0 ''shop-orders'' ''replication_key_value'' = PStr ''5'' \<and>
      get_bookmark h' 0 ''shop-orders'' ''replication_key_type'' = PStr ''int'') \<and>
   \<not> truthy (row_get [(''_id'', PInt 5)] (Some ''updated_at'')) \<and>
   update_bookmark example_common [(''_id'', PInt 5)] [empty_state] 0
     ''shop-orders'' (Some ''updated_at'') = Inr [empty_state]"
proof -
  have len: "(0::nat) < length [empty_state]" by simp
  have t: "truthy (row_get [(''updated_at'', PInt 5)] (Some ''updated_at''))"
    by (simp add: row_get_def dict_get_def)
  have f: "\<not> truthy (row_get [(''_id'', PInt 5)] (Some ''updated_at''))"
    by (simp add: row_get_def dict_get_def)
  have s: "class_to_string example_common (row_get [(''updated_at'', PInt 5)] (Some ''updated_at''))
             (class_name (row_get [(''updated_at'', PInt 5)] (Some ''updated_at''))) = Inr ''5''"
    by code_simp
  from update_bookmark_overwrites_when_truthy
         [OF len, of "[(''updated_at'', PInt 5)]" "Some ''updated_at''" example_common
            "''shop-orders''"]
       update_bookmark_overwrites_when_truthy
         [OF len, of "[(''_id'', PInt 5)]" "Some ''updated_at''" example_common
            "''shop-orders''"]
       len t f s
  show ?thesis by (simp add: row_get_def dict_get_def)
qed

text \<open>
  C5 as it is written fails on a key that is not null and yet false: the row's
  \<^verbatim>\<open>updated_at\<close> is the integer 0, and the call returns the store untouched, with no
  \<^verbatim>\<open>replication_key_value\<close> in it.
\<close>

theorem update_bookmark_nonnull_counterexample:
  "row_get [(''updated_at'', PInt 0)] (Some ''updated_at'') \<noteq> PNone \<and>
   update_bookmark example_common [(''updated_at'', PInt 0)] [empty_state] 0
     ''shop-orders'' (Some ''updated_at'') = Inr [empty_state] \<and>
   get_bookmark [empty_state] 0 ''shop-orders'' ''replication_key_value'' = PNone"
  by (simp add: row_get_def dict_get_def update_bookmark_def get_bookmark_def
        stream_bookmark_def empty_state_def)

section \<open>The store along the loop\<close>

lemma keeps_objects_refl: "keeps_objects state h h"
  by (simp add: keeps_objects_def)

lemma keeps_objects_trans:
  "keeps_objects state h1 h2 \<Longrightarrow> keeps_objects state h2 h3 \<Longrightarrow> keeps_objects state h1 h3"
  by (auto simp: keeps_objects_def)

lemma keeps_objects_update_bookmark:
  "update_bookmark C row h state i name = Inr h' \<Longrightarrow> keeps_objects state h h'"
  by (simp add: keeps_objects_def update_bookmark_length update_bookmark_other)

lemma keeps_objects_deepcopy: "keeps_objects state h (snd (deepcopy h state))"
  by (auto simp: keeps_objects_def deepcopy_def nth_append)

text \<open>One turn of the loop: what it leaves in the store, and what it emits.\<close>

lemma sync_row_heap:
  assumes "sync_row C stream state name ver te row (w, sch, n) = (t, (w', sch', n'), r)"
    and "state < length (heap w)"
  shows "keeps_objects state (heap w) (heap w') \<and>
         (\<forall>(e, hs) \<in> set t.
            keeps_objects state (heap w) hs \<and> keeps_objects state hs (heap w') \<and>
            (\<forall>a. e = Emit (StateMessage a) \<longrightarrow>
               length (heap w) \<le> a \<and> a < length hs \<and> a \<noteq> state \<and> hs ! a = hs ! state))"
proof -
  obtain sch1 changed where rs: "row_to_schema C sch row = (sch1, changed)"
    by (cases "row_to_schema C sch row")
  define w1 where "w1 = (if changed then w\<lparr>SCHEMA_COUNT := SCHEMA_COUNT w + 1\<rparr> else w)"
  have hw1: "heap w1 = heap w" by (simp add: w1_def)
  show ?thesis
  proof (cases "update_bookmark C row (heap w) state (stream_id stream) name")
    case (Inl e)
    with assms rs show ?thesis
      by (auto simp: sync_row_def Let_def keeps_objects_refl split: if_splits)
  next
    case (Inr h2)
    have k2: "keeps_objects state (heap w) h2"
      using Inr by (rule keeps_objects_update_bookmark)
    have l2: "length h2 = length (heap w)"
      using Inr by (rule update_bookmark_length)
    have k3: "keeps_objects state (heap w) (snd (deepcopy h2 state))"
      using k2 keeps_objects_deepcopy by (rule keeps_objects_trans)
    have d: "deepcopy h2 state = (length h2, h2 @ [h2 ! state])"
      by (simp add: deepcopy_def)
    from assms rs Inr k2 k3 l2 show ?thesis
      by (auto simp: sync_row_def Let_def keeps_objects_refl d nth_append
            split: if_splits)
  qed
qed

lemma sync_rows_heap:
  assumes "sync_rows C stream state name ver te rs (w, sch, n) = (tr, (w', sch', n'), r)"
    and "state < length (heap w)"
  shows "keeps_objects state (heap w) (heap w') \<and>
         (\<forall>(e, hs) \<in> set tr.
            keeps_objects state (heap w) hs \<and> keeps_objects state hs (heap w') \<and>
            (\<forall>a. e = Emit (StateMessage a) \<longrightarrow>
               length (heap w) \<le> a \<and> a < length hs \<and> a \<noteq> state \<and> hs ! a = hs ! state))"
  using assms
proof (induction rs arbitrary: w sch n tr)
  case Nil
  then show ?case by (simp add: keeps_objects_refl)
next
  case (Cons row rest)
  obtain t w1 sch1 n1 r1 where
    step: "sync_row C stream state name ver te row (w, sch, n) = (t, (w1, sch1, n1), r1)"
    by (metis prod_cases3)
  note h1 = sync_row_heap [OF step Cons.prems(2)]
  show ?case
  proof (cases r1)
    case (Some e)
    with Cons.prems(1) step h1 show ?thesis by simp
  next
    case None
    obtain t' where
      rest: "sync_rows C stream state name ver te rest (w1, sch1, n1) = (t', (w', sch', n'), r)"
      and tr: "tr = t @ t'"
      using Cons.prems(1) step None by (auto split: prod.splits)
    have len1: "state < length (heap w1)"
      using h1 Cons.prems(2) by (simp add: keeps_objects_def)
    note ih = Cons.IH [OF rest len1]
    have kw: "keeps_objects state (heap w) (heap w')"
      using h1 ih by (blast intro: keeps_objects_trans)
    have p1: "\<forall>(e, hs) \<in> set t.
                keeps_objects state (heap w) hs \<and> keeps_objects state hs (heap w') \<and>
                (\<forall>a. e = Emit (StateMessage a) \<longrightarrow>
                   length (heap w) \<le> a \<and> a < length hs \<and> a \<noteq> state \<and> hs ! a = hs ! state)"
      using h1 ih by (fastforce intro: keeps_objects_trans)
    have lw: "length (heap w) \<le> length (heap w1)"
      using h1 by (simp add: keeps_objects_def)
    have p2: "\<forall>(e, hs) \<in> set t'.
                keeps_objects state (heap w) hs \<and> keeps_objects state hs (heap w') \<and>
                (\<forall>a. e = Emit (StateMessage a) \<longrightarrow>
                   length (heap w) \<le> a \<and> a < length hs \<and> a \<noteq> state \<and> hs ! a = hs ! state)"
      using h1 ih lw by (fastforce intro: keeps_objects_trans)
    show ?thesis unfolding tr using kw p1 p2 by auto
  qed
qed

section \<open>What the loop emits\<close>

lemma sync_row_events:
  assumes "sync_row C stream state name ver te row (w, sch, n) = (t, (w', sch', n'), r)"
  shows "n' = Suc n \<and>
         (\<forall>e \<in> fst ` set t. \<not> is_activate_version e \<and> \<not> is_find e \<and> e \<noteq> CloseCursor) \<and>
         (r = None \<longrightarrow> UPDATE_BOOKMARK_PERIOD C \<noteq> 0 \<and>
            length (filter is_state (map fst t))
              = (if Suc n mod UPDATE_BOOKMARK_PERIOD C = 0 then 1 else 0))"
  using assms
  by (cases "row_to_schema C sch row";
      cases "update_bookmark C row (heap w) state (stream_id stream) name")
     (auto simp: sync_row_def Let_def deepcopy_def split: if_splits)

lemma sync_rows_events:
  assumes "sync_rows C stream state name ver te rs (w, sch, n) = (tr, (w', sch', n'), r)"
  shows "\<forall>e \<in> fst ` set tr. \<not> is_activate_version e \<and> \<not> is_find e \<and> e \<noteq> CloseCursor"
  using assms
proof (induction rs arbitrary: w sch n tr)
  case Nil
  then show ?case by simp
next
  case (Cons row rest)
  obtain t w1 sch1 n1 r1 where
    step: "sync_row C stream state name ver te row (w, sch, n) = (t, (w1, sch1, n1), r1)"
    by (metis prod_cases3)
  note e1 = sync_row_events [OF step]
  show ?case
  proof (cases r1)
    case (Some e)
    with Cons.prems step e1 show ?thesis by simp
  next
    case None
    obtain t' where
      rest: "sync_rows C stream state name ver te rest (w1, sch1, n1) = (t', (w', sch', n'), r)"
      and tr: "tr = t @ t'"
      using Cons.prems step None by (auto split: prod.splits)
    from e1 Cons.IH [OF rest] show ?thesis unfolding tr by auto
  qed
qed

lemma sync_rows_count:
  assumes "sync_rows C stream state name ver te rs (w, sch, n) = (tr, (w', sch', n'), None)"
    and "0 < UPDATE_BOOKMARK_PERIOD C"
  shows "n' = n + length rs \<and>
         length (filter is_state (map fst tr))
           = (n + length rs) div UPDATE_BOOKMARK_PERIOD C - n div UPDATE_BOOKMARK_PERIOD C"
  using assms
proof (induction rs arbitrary: w sch n tr)
  case Nil
  then show ?case by simp
next
  case (Cons row rest)
  let ?N = "UPDATE_BOOKMARK_PERIOD C"
  obtain t w1 sch1 n1 r1 where
    step: "sync_row C stream state name ver te row (w, sch, n) = (t, (w1, sch1, n1), r1)"
    by (metis prod_cases3)
  have r1: "r1 = None"
    using Cons.prems(1) step by (cases r1) auto
  obtain t' where
    rest: "sync_rows C stream state name ver te rest (w1, sch1, n1) = (t', (w', sch', n'), None)"
    and tr: "tr = t @ t'"
    using Cons.prems(1) step r1 by (auto split: prod.splits)
  from sync_row_events [OF step] r1
  have n1: "n1 = Suc n"
    and c1: "length (filter is_state (map fst t)) = (if Suc n mod ?N = 0 then 1 else 0)"
    by simp_all
  from Cons.IH [OF rest Cons.prems(2)] n1
  have n': "n' = Suc n + length rest"
    and c2: "length (filter is_state (map fst t')) = (Suc n + length rest) div ?N - Suc n div ?N"
    by simp_all
  have m1: "Suc n div ?N \<le> (Suc n + length rest) div ?N"
    by (rule div_le_mono) simp
  have s: "Suc n div ?N = (if Suc n mod ?N = 0 then Suc (n div ?N) else n div ?N)"
    by (rule div_Suc)
  show ?case
    unfolding tr using n' c1 c2 m1 s by (auto split: if_splits)
qed

lemma sync_rows_period_zero:
  assumes "sync_rows C stream state name ver te rs (w, sch, n) = (tr, res, None)"
    and "rs \<noteq> []"
  shows "0 < UPDATE_BOOKMARK_PERIOD C"
proof -
  obtain row rest where rs: "rs = row # rest" using assms(2) by (cases rs) auto
  obtain t w1 sch1 n1 r1 where
    step: "sync_row C stream state name ver te row (w, sch, n) = (t, (w1, sch1, n1), r1)"
    by (metis prod_cases3)
  have "r1 = None" using assms(1) step rs by (cases r1) auto
  with sync_row_events [OF step] show ?thesis by simp
qed

text \<open>The state object along the loop.\<close>

lemma update_bookmark_get_other:
  assumes "update_bookmark C row h state i name = Inr h'"
    and "state < length h"
    and "k \<noteq> ''replication_key_value''" and "k \<noteq> ''replication_key_type''"
  shows "get_bookmark h' state j k = get_bookmark h state j k"
  using assms
  by (auto simp: update_bookmark_def Let_def get_bookmark_write_bookmark length_write_bookmark
        split: if_splits sum.splits)

lemma get_bookmark_cong: "h' ! state = h ! state \<Longrightarrow> get_bookmark h' state j k = get_bookmark h state j k"
  by (simp add: get_bookmark_def)

lemma sync_row_get_other:
  assumes "sync_row C stream state name ver te row (w, sch, n) = (t, (w', sch', n'), r)"
    and "state < length (heap w)"
    and "k \<noteq> ''replication_key_value''" and "k \<noteq> ''replication_key_type''"
  shows "get_bookmark (heap w') state j k = get_bookmark (heap w) state j k \<and>
         (\<forall>(e, hs) \<in> set t. get_bookmark hs state j k = get_bookmark (heap w) state j k)"
proof (cases "update_bookmark C row (heap w) state (stream_id stream) name")
  case (Inl e)
  with assms(1) show ?thesis
    by (cases "row_to_schema C sch row") (auto simp: sync_row_def Let_def split: if_splits)
next
  case (Inr h2)
  have g2: "get_bookmark h2 state j k = get_bookmark (heap w) state j k"
    using Inr assms(2-4) by (rule update_bookmark_get_other)
  have l2: "length h2 = length (heap w)"
    using Inr by (rule update_bookmark_length)
  have g3: "get_bookmark (h2 @ [h2 ! state]) state j k = get_bookmark (heap w) state j k"
    using g2 l2 assms(2) by (simp add: get_bookmark_def nth_append)
  from assms(1) Inr g2 g3 show ?thesis
    by (cases "row_to_schema C sch row")
       (auto simp: sync_row_def Let_def deepcopy_def split: if_splits)
qed

lemma sync_rows_get_other:
  assumes "sync_rows C stream state name ver te rs (w, sch, n) = (tr, (w', sch', n'), r)"
    and "state < length (heap w)"
    and "k \<noteq> ''replication_key_value''" and "k \<noteq> ''replication_key_type''"
  shows "get_bookmark (heap w') state j k = get_bookmark (heap w) state j k \<and>
         (\<forall>(e, hs) \<in> set tr. get_bookmark hs state j k = get_bookmark (heap w) state j k)"
  using assms(1,2)
proof (induction rs arbitrary: w sch n tr)
  case Nil
  then show ?case by simp
next
  case (Cons row rest)
  obtain t w1 sch1 n1 r1 where
    step: "sync_row C stream state name ver te row (w, sch, n) = (t, (w1, sch1, n1), r1)"
    by (metis prod_cases3)
  note g1 = sync_row_get_other [OF step Cons.prems(2) assms(3,4), of j]
  show ?case
  proof (cases r1)
    case (Some e)
    with Cons.prems(1) step g1 show ?thesis by simp
  next
    case None
    obtain t' where
      rest: "sync_rows C stream state name ver te rest (w1, sch1, n1) = (t', (w', sch', n'), r)"
      and tr: "tr = t @ t'"
      using Cons.prems(1) step None by (auto split: prod.splits)
    have len1: "state < length (heap w1)"
      using sync_row_heap [OF step Cons.prems(2)] Cons.prems(2) by (simp add: keeps_objects_def)
    from g1 Cons.IH [OF rest len1] show ?thesis unfolding tr by auto
  qed
qed

section \<open>The run as a whole\<close>

text \<open>\<^verbatim>\<open>sync_collection\<close> with its local variables spelled out.\<close>

lemma sync_collection_Some:
  fixes C :: "('ty, 'rec) common"
  defines "rv \<equiv> \<lambda>w state stream now_ms. resolve_version (heap w) state (stream_id stream) now_ms"
  shows "sync_collection C collection stream (Some state) projection now_ms time_extracted w =
    (let first_run = fst (rv w state stream now_ms);
         v = fst (snd (rv w state stream now_ms));
         h1 = snd (snd (rv w state stream now_ms));
         act = ActivateVersionMessage (calculate_destination_stream_name C stream) v;
         t1 = (if first_run then [(Emit act, h1)] else []);
         h2 = h1 @ [h1 ! state];
         t2 = t1 @ [(Emit (StateMessage (length h1)), h2)]
     in case top_level_metadata stream of
          None \<Rightarrow> (t1, w\<lparr>heap := h1\<rparr>, Some AttributeError)
        | Some md \<Rightarrow>
            (case build_find_filter C (stream_bookmark (h1 ! state) (stream_id stream))
                    (replication_key md) of
               Inl e \<Rightarrow> (t2, w\<lparr>heap := h2\<rparr>, Some e)
             | Inr f \<Rightarrow>
                 (let t3 = t2 @ [(Find f projection [(replication_key md, ASCENDING)], h2)]
                  in case collection f projection [(replication_key md, ASCENDING)] of
                       Inl e \<Rightarrow> (t3, w\<lparr>heap := h2\<rparr>, Some e)
                     | Inr cursor \<Rightarrow>
                         (case sync_rows C stream state (replication_key md) v time_extracted
                                 (rows cursor) (w\<lparr>heap := h2\<rparr>, [], 0) of
                            (t4, (w4, schema, rows_saved), r) \<Rightarrow>
                              (case (case r of Some e \<Rightarrow> Some e | None \<Rightarrow> failure cursor) of
                                 Some e \<Rightarrow> (t3 @ t4 @ [(CloseCursor, heap w4)], w4, Some e)
                               | None \<Rightarrow>
                                   (t3 @ t4 @
                                    [(CloseCursor, heap w4), (Emit act, heap w4)],
                                    w4\<lparr>COUNTS := COUNTS w4 + rows_saved\<rparr>, None))))))"
  unfolding sync_collection_def rv_def
  by (simp add: Let_def deepcopy_def split_beta split: option.splits sum.splits)

lemma sync_collection_Some_rv:
  assumes rv: "resolve_version (heap w) state (stream_id stream) now_ms = (fr, v, h1)"
  shows "sync_collection C collection stream (Some state) projection now_ms time_extracted w =
    (let act = ActivateVersionMessage (calculate_destination_stream_name C stream) v;
         t1 = (if fr then [(Emit act, h1)] else []);
         h2 = h1 @ [h1 ! state];
         t2 = t1 @ [(Emit (StateMessage (length h1)), h2)]
     in case top_level_metadata stream of
          None \<Rightarrow> (t1, w\<lparr>heap := h1\<rparr>, Some AttributeError)
        | Some md \<Rightarrow>
            (case build_find_filter C (stream_bookmark (h1 ! state) (stream_id stream))
                    (replication_key md) of
               Inl e \<Rightarrow> (t2, w\<lparr>heap := h2\<rparr>, Some e)
             | Inr f \<Rightarrow>
                 (let t3 = t2 @ [(Find f projection [(replication_key md, ASCENDING)], h2)]
                  in case collection f projection [(replication_key md, ASCENDING)] of
                       Inl e \<Rightarrow> (t3, w\<lparr>heap := h2\<rparr>, Some e)
                     | Inr cursor \<Rightarrow>
                         (case sync_rows C stream state (replication_key md) v time_extracted
                                 (rows cursor) (w\<lparr>heap := h2\<rparr>, [], 0) of
                            (t4, (w4, schema, rows_saved), r) \<Rightarrow>
                              (case (case r of Some e \<Rightarrow> Some e | None \<Rightarrow> failure cursor) of
                                 Some e \<Rightarrow> (t3 @ t4 @ [(CloseCursor, heap w4)], w4, Some e)
                               | None \<Rightarrow>
                                   (t3 @ t4 @
                                    [(CloseCursor, heap w4), (Emit act, heap w4)],
                                    w4\<lparr>COUNTS := COUNTS w4 + rows_saved\<rparr>, None))))))"
  by (simp add: sync_collection_Some rv)

text \<open>The five ways a run with a state can end.\<close>

lemma sync_collection_cases:
  assumes run: "sync_collection C collection stream (Some state) projection now_ms te w
                  = (tr, w', r)"
    and rv: "resolve_version (heap w) state (stream_id stream) now_ms = (fr, v, h1)"
    and act: "act = ActivateVersionMessage (calculate_destination_stream_name C stream) v"
    and t1: "t1 = (if fr then [(Emit act, h1)] else [])"
    and h2: "h2 = h1 @ [h1 ! state]"
  obtains
    (no_metadata)
      "top_level_metadata stream = None"
      "tr = t1" "w' = w\<lparr>heap := h1\<rparr>" "r = Some AttributeError"
  | (filter_raises) md e where
      "top_level_metadata stream = Some md"
      "build_find_filter C (stream_bookmark (h1 ! state) (stream_id stream)) (replication_key md)
         = Inl e"
      "tr = t1 @ [(Emit (StateMessage (length h1)), h2)]" "w' = w\<lparr>heap := h2\<rparr>" "r = Some e"
  | (find_raises) md f e where
      "top_level_metadata stream = Some md"
      "build_find_filter C (stream_bookmark (h1 ! state) (stream_id stream)) (replication_key md)
         = Inr f"
      "collection f projection [(replication_key md, ASCENDING)] = Inl e"
      "tr = t1 @ [(Emit (StateMessage (length h1)), h2),
                  (Find f projection [(replication_key md, ASCENDING)], h2)]"
      "w' = w\<lparr>heap := h2\<rparr>" "r = Some e"
  | (loop_raises) md f cursor t4 sch n r4 e where
      "top_level_metadata stream = Some md"
      "build_find_filter C (stream_bookmark (h1 ! state) (stream_id stream)) (replication_key md)
         = Inr f"
      "collection f projection [(replication_key md, ASCENDING)] = Inr cursor"
      "sync_rows C stream state (replication_key md) v te (rows cursor)
         (w\<lparr>heap := h2\<rparr>, [], 0) = (t4, (w', sch, n), r4)"
      "(case r4 of Some e \<Rightarrow> Some e | None \<Rightarrow> failure cursor) = Some e"
      "tr = t1 @ [(Emit (StateMessage (length h1)), h2),
                  (Find f projection [(replication_key md, ASCENDING)], h2)]
            @ t4 @ [(CloseCursor, heap w')]"
      "r = Some e"
  | (returns) md f cursor t4 w4 sch n where
      "top_level_metadata stream = Some md"
      "build_find_filter C (stream_bookmark (h1 ! state) (stream_id stream)) (replication_key md)
         = Inr f"
      "collection f projection [(replication_key md, ASCENDING)] = Inr cursor"
      "failure cursor = None"
      "sync_rows C stream state (replication_key md) v te (rows cursor)
         (w\<lparr>heap := h2\<rparr>, [], 0) = (t4, (w4, sch, n), None)"
      "tr = t1 @ [(Emit (StateMessage (length h1)), h2),
                  (Find f projection [(replication_key md, ASCENDING)], h2)]
            @ t4 @ [(CloseCursor, heap w4), (Emit act, heap w4)]"
      "w' = w4\<lparr>COUNTS := COUNTS w4 + n\<rparr>" "r = None"
proof -
  note eq = run [unfolded sync_collection_Some_rv [OF rv] Let_def, folded act, folded t1,
                 folded h2]
  show ?thesis
  proof (cases "top_level_metadata stream")
    case None
    with eq show ?thesis by (auto intro: no_metadata)
  next
    case (Some md)
    note eq1 = eq [unfolded Some option.case]
    show ?thesis
    proof (cases "build_find_filter C (stream_bookmark (h1 ! state) (stream_id stream))
                    (replication_key md)")
      case (Inl e)
      with eq1 Some show ?thesis by (auto intro: filter_raises)
    next
      case (Inr f)
      note eq2 = eq1 [unfolded Inr sum.case]
      show ?thesis
      proof (cases "collection f projection [(replication_key md, ASCENDING)]")
        case (Inl e)
        with eq2 Some Inr show ?thesis by (auto intro: find_raises)
      next
        case c: (Inr cursor)
        note eq3 = eq2 [unfolded c sum.case]
        obtain t4 w4 sch n r4 where
          l: "sync_rows C stream state (replication_key md) v te (rows cursor)
                (w\<lparr>heap := h2\<rparr>, [], 0) = (t4, (w4, sch, n), r4)"
          by (metis prod_cases3)
        note eq4 = eq3 [unfolded l prod.case]
        show ?thesis
        proof (cases "case r4 of Some e \<Rightarrow> Some e | None \<Rightarrow> failure cursor")
          case None
          then have r4: "r4 = None" and fl: "failure cursor = None"
            by (auto split: option.splits)
          from eq4 None have
            "tr = t1 @ [(Emit (StateMessage (length h1)), h2),
                        (Find f projection [(replication_key md, ASCENDING)], h2)]
                  @ t4 @ [(CloseCursor, heap w4), (Emit act, heap w4)]"
            "w' = w4\<lparr>COUNTS := COUNTS w4 + n\<rparr>" "r = None"
            by auto
          with Some Inr c fl l r4 show ?thesis by (auto intro: returns)
        next
          case (Some e)
          from eq4 Some have
            "tr = t1 @ [(Emit (StateMessage (length h1)), h2),
                        (Find f projection [(replication_key md, ASCENDING)], h2)]
                  @ t4 @ [(CloseCursor, heap w')]"
            "w' = w4" "r = Some e"
            by auto
          with \<open>top_level_metadata stream = Some md\<close> Inr c l Some show ?thesis
            by (auto intro: loop_raises)
        qed
      qed
    qed
  qed
qed

section \<open>The claims about a whole run\<close>

lemma resolve_version_eq:
  assumes "resolve_version h state sid now_ms = (fr, v, h1)"
  shows "fr = (get_bookmark h state sid ''version'' = PNone)"
    and "v = (if fr then PInt now_ms else get_bookmark h state sid ''version'')"
    and "h1 = write_bookmark h state sid ''version'' v"
  using assms by (auto simp: resolve_version_def Let_def)

lemma example_run_returns: "snd (snd example_run) = None"
  unfolding example_run_def by code_simp

text \<open>
  C6. A run that returns, with a positive checkpoint period \<open>N\<close>, over the \<open>R\<close> rows of
  its cursor: its trace is the events before the cursor is opened, the call of \<open>find\<close>,
  the events of the loop, the closing of the cursor and the final ACTIVATE_VERSION.
  Exactly one STATE message is written before the cursor is opened, \<open>R div N\<close> in the
  loop, and none after it: \<open>1 + R div N\<close> in all.
\<close>

theorem state_messages_counted:
  fixes C :: "('ty, 'rec) common"
  assumes "sync_collection C collection stream (Some state) projection now_ms te w = (tr, w', None)"
    and "0 < UPDATE_BOOKMARK_PERIOD C"
  shows "\<exists>pre f srt cursor loop dest v.
           map fst tr = pre @ [Find f projection srt] @ loop
                          @ [CloseCursor, Emit (ActivateVersionMessage dest v)] \<and>
           collection f projection srt = Inr cursor \<and>
           list_all (\<lambda>e. \<not> is_find e) pre \<and>
           list_all (\<lambda>e. \<not> is_find e \<and> e \<noteq> CloseCursor) loop \<and>
           length (filter is_state pre) = 1 \<and>
           length (filter is_state loop) = length (rows cursor) div UPDATE_BOOKMARK_PERIOD C \<and>
           length (filter is_state (map fst tr))
             = 1 + length (rows cursor) div UPDATE_BOOKMARK_PERIOD C"
proof -
  obtain fr v h1 where rv: "resolve_version (heap w) state (stream_id stream) now_ms = (fr, v, h1)"
    by (metis prod_cases3)
  define act :: "('ty, 'rec) message" where "act = ActivateVersionMessage (calculate_destination_stream_name C stream) v"
  define t1 :: "('ty, 'rec) trace" where "t1 = (if fr then [(Emit act, h1)] else [])"
  define h2 where "h2 = h1 @ [h1 ! state]"
  from assms(1) rv act_def t1_def h2_def show ?thesis
  proof (cases rule: sync_collection_cases)
    case (returns md f cursor t4 w4 sch n)
    let ?pre = "map fst t1 @ [Emit (StateMessage (length h1))]"
    let ?srt = "[(replication_key md, ASCENDING)]"
    have c: "length (filter is_state (map fst t4))
               = length (rows cursor) div UPDATE_BOOKMARK_PERIOD C"
      using sync_rows_count [OF returns(5) assms(2)] by simp
    have e: "list_all (\<lambda>e. \<not> is_find e \<and> e \<noteq> CloseCursor) (map fst t4)"
      using sync_rows_events [OF returns(5)] by (auto simp: list_all_iff)
    have p: "list_all (\<lambda>e. \<not> is_find e) ?pre" "length (filter is_state ?pre) = 1"
      by (simp_all add: t1_def act_def)
    have m: "map fst tr = ?pre @ [Find f projection ?srt] @ map fst t4
                             @ [CloseCursor, Emit act]"
      using returns(6) by simp
    have tot: "length (filter is_state (map fst tr))
                 = 1 + length (rows cursor) div UPDATE_BOOKMARK_PERIOD C"
      unfolding m using p(2) c by (simp add: act_def)
    show ?thesis
      using m returns(3) p e c tot unfolding act_def by blast
  qed simp_all
qed

theorem state_messages_counted_witness:
  "snd (snd example_run) = None \<and> 0 < UPDATE_BOOKMARK_PERIOD example_common \<and>
   (\<exists>pre f srt cursor loop dest v.
      map fst (fst example_run) = pre @ [Find f None srt] @ loop
                     @ [CloseCursor, Emit (ActivateVersionMessage dest v)] \<and>
      example_collection example_docs f None srt = Inr cursor \<and>
      list_all (\<lambda>e. \<not> is_find e) pre \<and>
      list_all (\<lambda>e. \<not> is_find e \<and> e \<noteq> CloseCursor) loop \<and>
      length (filter is_state pre) = 1 \<and>
      length (filter is_state loop) = length (rows cursor) div UPDATE_BOOKMARK_PERIOD example_common \<and>
      length (filter is_state (map fst (fst example_run)))
        = 1 + length (rows cursor) div UPDATE_BOOKMARK_PERIOD example_common)"
proof -
  have r: "sync_collection example_common (example_collection example_docs) example_stream
             (Some 0) None 1700000000000 (PDatetime 0) example_world
           = (fst example_run, fst (snd example_run), None)"
    using example_run_returns by (simp add: example_run_def prod_eq_iff)
  have n: "0 < UPDATE_BOOKMARK_PERIOD example_common"
    by (simp add: example_common_def)
  from state_messages_counted [OF r n] example_run_returns n show ?thesis by blast
qed

lemma takeWhile_before_find:
  "list_all (\<lambda>e. \<not> is_find e) pre \<Longrightarrow>
   takeWhile (\<lambda>e. \<not> is_find e) (pre @ Find f p s # rest) = pre"
  by (induction pre) auto

text \<open>
  C4. The run is a first run exactly when the state holds no version for the stream.
  Before the cursor is opened, that is before \<open>find\<close> is called and any row is read, an
  ACTIVATE_VERSION message is written exactly on a first run, and it carries the
  resolved version. A run that returns, its cursor exhausted, ends with the closing of
  the cursor and an ACTIVATE_VERSION message for the same version, first run or not, and
  the loop writes no ACTIVATE_VERSION message.
\<close>

theorem activate_version_messages:
  fixes C :: "('ty, 'rec) common"
  assumes run: "sync_collection C collection stream (Some state) projection now_ms te w
                  = (tr, w', r)"
    and rv: "resolve_version (heap w) state (stream_id stream) now_ms = (fr, v, h1)"
  shows "(fr \<longleftrightarrow> get_bookmark (heap w) state (stream_id stream) ''version'' = PNone) \<and>
         (Emit (ActivateVersionMessage (calculate_destination_stream_name C stream) v)
            \<in> set (takeWhile (\<lambda>e. \<not> is_find e) (map fst tr)) \<longleftrightarrow> fr) \<and>
         (list_ex is_activate_version (takeWhile (\<lambda>e. \<not> is_find e) (map fst tr)) \<longleftrightarrow> fr) \<and>
         (r = None \<longrightarrow>
            (\<exists>pre f srt loop.
               map fst tr = pre @ [Find f projection srt] @ loop @
                 [CloseCursor,
                  Emit (ActivateVersionMessage (calculate_destination_stream_name C stream) v)] \<and>
               list_all (\<lambda>e. \<not> is_find e) pre \<and>
               list_all (\<lambda>e. \<not> is_activate_version e \<and> \<not> is_find e \<and> e \<noteq> CloseCursor) loop))"
proof -
  define act :: "('ty, 'rec) message"
    where "act = ActivateVersionMessage (calculate_destination_stream_name C stream) v"
  define t1 :: "('ty, 'rec) trace" where "t1 = (if fr then [(Emit act, h1)] else [])"
  define h2 where "h2 = h1 @ [h1 ! state]"
  let ?pre = "map fst t1 @ [Emit (StateMessage (length h1))]"
  have fr: "fr \<longleftrightarrow> get_bookmark (heap w) state (stream_id stream) ''version'' = PNone"
    using resolve_version_eq(1) [OF rv] .
  have a1: "Emit act \<in> set (map fst t1) \<longleftrightarrow> fr" "list_ex is_activate_version (map fst t1) \<longleftrightarrow> fr"
    by (cases fr; simp add: t1_def act_def)+
  have a2: "Emit act \<in> set ?pre \<longleftrightarrow> fr" "list_ex is_activate_version ?pre \<longleftrightarrow> fr"
    by (cases fr; simp add: t1_def act_def)+
  have nf1: "list_all (\<lambda>e. \<not> is_find e) (map fst t1)" "list_all (\<lambda>e. \<not> is_find e) ?pre"
    by (cases fr; simp add: t1_def)+
  have tw1: "takeWhile (\<lambda>e. \<not> is_find e) (map fst t1) = map fst t1"
    using nf1(1) by (simp add: list_all_iff)
  have tw2: "takeWhile (\<lambda>e. \<not> is_find e) ?pre = ?pre"
    using nf1(2) by (simp add: list_all_iff del: map_append)
  from run rv act_def t1_def h2_def
  have "(Emit act \<in> set (takeWhile (\<lambda>e. \<not> is_find e) (map fst tr)) \<longleftrightarrow> fr) \<and>
        (list_ex is_activate_version (takeWhile (\<lambda>e. \<not> is_find e) (map fst tr)) \<longleftrightarrow> fr) \<and>
        (r = None \<longrightarrow>
            (\<exists>pre f srt loop.
               map fst tr = pre @ [Find f projection srt] @ loop @ [CloseCursor, Emit act] \<and>
               list_all (\<lambda>e. \<not> is_find e) pre \<and>
               list_all (\<lambda>e. \<not> is_activate_version e \<and> \<not> is_find e \<and> e \<noteq> CloseCursor) loop))"
  proof (cases rule: sync_collection_cases)
    case no_metadata
    have tk: "takeWhile (\<lambda>e. \<not> is_find e) (map fst tr) = map fst t1"
      unfolding no_metadata(2) by (rule tw1)
    show ?thesis unfolding tk using a1 no_metadata(4) by simp
  next
    case (filter_raises md e)
    have "map fst tr = ?pre" using filter_raises(3) by simp
    then have tk: "takeWhile (\<lambda>e. \<not> is_find e) (map fst tr) = ?pre"
      using tw2 by simp
    show ?thesis unfolding tk using a2 filter_raises(5) by simp
  next
    case (find_raises md f e)
    have "map fst tr = ?pre @ Find f projection [(replication_key md, ASCENDING)] # []"
      using find_raises(4) by simp
    then have tk: "takeWhile (\<lambda>e. \<not> is_find e) (map fst tr) = ?pre"
      using takeWhile_before_find [OF nf1(2)] by simp
    show ?thesis unfolding tk using a2 find_raises(6) by simp
  next
    case (loop_raises md f cursor t4 sch n r4 e)
    have "map fst tr = ?pre @ Find f projection [(replication_key md, ASCENDING)]
                         # (map fst t4 @ [CloseCursor])"
      using loop_raises(6) by simp
    then have tk: "takeWhile (\<lambda>e. \<not> is_find e) (map fst tr) = ?pre"
      using takeWhile_before_find [OF nf1(2)] by simp
    show ?thesis unfolding tk using a2 loop_raises(7) by simp
  next
    case (returns md f cursor t4 w4 sch n)
    have m: "map fst tr = ?pre @ Find f projection [(replication_key md, ASCENDING)]
                         # (map fst t4 @ [CloseCursor, Emit act])"
      using returns(6) by simp
    have tk: "takeWhile (\<lambda>e. \<not> is_find e) (map fst tr) = ?pre"
      unfolding m using takeWhile_before_find [OF nf1(2)] by simp
    have e: "list_all (\<lambda>e. \<not> is_activate_version e \<and> \<not> is_find e \<and> e \<noteq> CloseCursor)
               (map fst t4)"
      using sync_rows_events [OF returns(5)] by (auto simp: list_all_iff)
    have sh: "\<exists>pre f srt loop.
               map fst tr = pre @ [Find f projection srt] @ loop @ [CloseCursor, Emit act] \<and>
               list_all (\<lambda>e. \<not> is_find e) pre \<and>
               list_all (\<lambda>e. \<not> is_activate_version e \<and> \<not> is_find e \<and> e \<noteq> CloseCursor) loop"
      using m nf1(2) e by (intro exI [of _ ?pre] exI [of _ f] exI [of _ "map fst t4"]
                           exI [of _ "[(replication_key md, ASCENDING)]"]) simp
    show ?thesis unfolding tk using a2 sh by simp
  qed
  with fr show ?thesis unfolding act_def by blast
qed

lemma resumed_run_returns: "snd (snd resumed_run) = None"
  unfolding resumed_run_def by code_simp

theorem activate_version_messages_witness:
  "fst (resolve_version (heap example_world) 0 (stream_id example_stream) 1700000000000) \<and>
   snd (snd example_run) = None \<and>
   Emit (ActivateVersionMessage ''shop-orders'' (PInt 1700000000000))
     \<in> set (takeWhile (\<lambda>e. \<not> is_find e) (map fst (fst example_run))) \<and>
   (\<exists>pre f srt loop.
      map fst (fst example_run) = pre @ [Find f None srt] @ loop @
        [CloseCursor, Emit (ActivateVersionMessage ''shop-orders'' (PInt 1700000000000))] \<and>
      list_all (\<lambda>e. \<not> is_find e) pre \<and>
      list_all (\<lambda>e. \<not> is_activate_version e \<and> \<not> is_find e \<and> e \<noteq> CloseCursor) loop) \<and>
   \<not> fst (resolve_version (heap resumed_world) 0 (stream_id example_stream) 1700000000000) \<and>
   snd (snd resumed_run) = None \<and>
   \<not> list_ex is_activate_version (takeWhile (\<lambda>e. \<not> is_find e) (map fst (fst resumed_run))) \<and>
   (\<exists>pre f srt loop.
      map fst (fst resumed_run) = pre @ [Find f None srt] @ loop @
        [CloseCursor, Emit (ActivateVersionMessage ''shop-orders'' (PInt 5))] \<and>
      list_all (\<lambda>e. \<not> is_find e) pre \<and>
      list_all (\<lambda>e. \<not> is_activate_version e \<and> \<not> is_find e \<and> e \<noteq> CloseCursor) loop)"
proof -
  let ?rv1 = "resolve_version (heap example_world) 0 (stream_id example_stream) 1700000000000"
  let ?rv2 = "resolve_version (heap resumed_world) 0 (stream_id example_stream) 1700000000000"
  have r1: "sync_collection example_common (example_collection example_docs) example_stream
              (Some 0) None 1700000000000 (PDatetime 0) example_world
            = (fst example_run, fst (snd example_run), snd (snd example_run))"
    by (simp add: example_run_def)
  have r2: "sync_collection example_common (example_collection example_docs) example_stream
              (Some 0) None 1700000000000 (PDatetime 0) resumed_world
            = (fst resumed_run, fst (snd resumed_run), snd (snd resumed_run))"
    by (simp add: resumed_run_def)
  have v1: "?rv1 = (fst ?rv1, fst (snd ?rv1), snd (snd ?rv1))" by simp
  have v2: "?rv2 = (fst ?rv2, fst (snd ?rv2), snd (snd ?rv2))" by simp
  have c1: "fst ?rv1" "fst (snd ?rv1) = PInt 1700000000000"
    by code_simp+
  have c2: "\<not> fst ?rv2" "fst (snd ?rv2) = PInt 5"
    by code_simp+
  have d: "calculate_destination_stream_name example_common example_stream = ''shop-orders''"
    by code_simp
  from activate_version_messages [OF r1 v1] activate_version_messages [OF r2 v2]
       c1 c2 d example_run_returns resumed_run_returns
  show ?thesis by simp
qed

text \<open>
  C3. When the state holds no version for the stream the version of the run is the
  time of the call in milliseconds, and otherwise it is the stored version, unchanged.
  Lines 73 to 76 write it back at once: the store has it at every effect of the run, from
  the first message on, hence before the cursor is opened and any row is processed, and
  the store still has it when the run ends, whether it returns or raises.
\<close>

theorem version_resolved_and_written:
  fixes C :: "('ty, 'rec) common"
  assumes run: "sync_collection C collection stream (Some state) projection now_ms te w
                  = (tr, w', r)"
    and len: "state < length (heap w)"
    and rv: "resolve_version (heap w) state (stream_id stream) now_ms = (fr, v, h1)"
  shows "(get_bookmark (heap w) state (stream_id stream) ''version'' = PNone
            \<longrightarrow> v = PInt now_ms) \<and>
         (get_bookmark (heap w) state (stream_id stream) ''version'' \<noteq> PNone
            \<longrightarrow> v = get_bookmark (heap w) state (stream_id stream) ''version'') \<and>
         get_bookmark h1 state (stream_id stream) ''version'' = v \<and>
         (\<forall>(e, hs) \<in> set tr. get_bookmark hs state (stream_id stream) ''version'' = v) \<and>
         get_bookmark (heap w') state (stream_id stream) ''version'' = v"
proof -
  let ?sid = "stream_id stream"
  define act :: "('ty, 'rec) message"
    where "act = ActivateVersionMessage (calculate_destination_stream_name C stream) v"
  define t1 :: "('ty, 'rec) trace" where "t1 = (if fr then [(Emit act, h1)] else [])"
  define h2 where "h2 = h1 @ [h1 ! state]"
  note rve = resolve_version_eq [OF rv]
  have v: "get_bookmark (heap w) state ?sid ''version'' = PNone \<longrightarrow> v = PInt now_ms"
          "get_bookmark (heap w) state ?sid ''version'' \<noteq> PNone
             \<longrightarrow> v = get_bookmark (heap w) state ?sid ''version''"
    using rve(1,2) by simp_all
  have l1: "length h1 = length (heap w)"
    using rve(3) by (simp add: length_write_bookmark)
  have g1: "get_bookmark h1 state ?sid ''version'' = v"
    using rve(3) len by (simp add: get_bookmark_write_bookmark)
  have g2: "get_bookmark h2 state ?sid ''version'' = v"
    using g1 l1 len by (simp add: h2_def get_bookmark_def nth_append)
  have l2: "state < length (heap (w\<lparr>heap := h2\<rparr>))"
    using l1 len by (simp add: h2_def)
  have p1: "\<forall>(e, hs) \<in> set t1. get_bookmark hs state ?sid ''version'' = v"
    using g1 by (simp add: t1_def)
  have loop: "get_bookmark (heap w4) state ?sid ''version'' = v \<and>
              (\<forall>(e, hs) \<in> set t4. get_bookmark hs state ?sid ''version'' = v)"
    if "sync_rows C stream state name v te rs (w\<lparr>heap := h2\<rparr>, [], 0) = (t4, (w4, sch, n), r4)"
    for name rs t4 w4 sch n r4
    using sync_rows_get_other [OF that l2, of "''version''" ?sid] g2 by simp
  from run rv act_def t1_def h2_def
  have "(\<forall>(e, hs) \<in> set tr. get_bookmark hs state ?sid ''version'' = v) \<and>
        get_bookmark (heap w') state ?sid ''version'' = v"
  proof (cases rule: sync_collection_cases)
    case no_metadata
    then show ?thesis using p1 g1 by simp
  next
    case (filter_raises md e)
    then show ?thesis using p1 g2 by auto
  next
    case (find_raises md f e)
    then show ?thesis using p1 g2 by auto
  next
    case (loop_raises md f cursor t4 sch n r4 e)
    from loop [OF loop_raises(4)] p1 g2 show ?thesis
      unfolding loop_raises(6) by auto
  next
    case (returns md f cursor t4 w4 sch n)
    from loop [OF returns(5)] p1 g2 show ?thesis
      unfolding returns(6,7) by auto
  qed
  with v g1 show ?thesis by blast
qed

theorem version_resolved_and_written_witness:
  "(0::nat) < length (heap example_world) \<and>
   get_bookmark (heap example_world) 0 (stream_id example_stream) ''version'' = PNone \<and>
   fst (snd (resolve_version (heap example_world) 0 (stream_id example_stream) 1700000000000))
     = PInt 1700000000000 \<and>
   list_all (\<lambda>(e, hs).
      get_bookmark hs 0 (stream_id example_stream) ''version'' = PInt 1700000000000)
     (fst example_run) \<and>
   get_bookmark (heap (fst (snd example_run))) 0 (stream_id example_stream) ''version''
     = PInt 1700000000000 \<and>
   (0::nat) < length (heap resumed_world) \<and>
   get_bookmark (heap resumed_world) 0 (stream_id example_stream) ''version'' \<noteq> PNone \<and>
   fst (snd (resolve_version (heap resumed_world) 0 (stream_id example_stream) 1700000000000))
     = PInt 5 \<and>
   list_all (\<lambda>(e, hs).
      get_bookmark hs 0 (stream_id example_stream) ''version'' = PInt 5) (fst resumed_run) \<and>
   get_bookmark (heap (fst (snd resumed_run))) 0 (stream_id example_stream) ''version''
     = PInt 5"
proof -
  let ?rv1 = "resolve_version (heap example_world) 0 (stream_id example_stream) 1700000000000"
  let ?rv2 = "resolve_version (heap resumed_world) 0 (stream_id example_stream) 1700000000000"
  have r1: "sync_collection example_common (example_collection example_docs) example_stream
              (Some 0) None 1700000000000 (PDatetime 0) example_world
            = (fst example_run, fst (snd example_run), snd (snd example_run))"
    by (simp add: example_run_def)
  have r2: "sync_collection example_common (example_collection example_docs) example_stream
              (Some 0) None 1700000000000 (PDatetime 0) resumed_world
            = (fst resumed_run, fst (snd resumed_run), snd (snd resumed_run))"
    by (simp add: resumed_run_def)
  have v1: "?rv1 = (fst ?rv1, fst (snd ?rv1), snd (snd ?rv1))" by simp
  have v2: "?rv2 = (fst ?rv2, fst (snd ?rv2), snd (snd ?rv2))" by simp
  have l1: "(0::nat) < length (heap example_world)" by (simp add: example_world_def)
  have l2: "(0::nat) < length (heap resumed_world)" by (simp add: resumed_world_def)
  have c1: "get_bookmark (heap example_world) 0 (stream_id example_stream) ''version'' = PNone"
    by code_simp
  have c2: "get_bookmark (heap resumed_world) 0 (stream_id example_stream) ''version'' = PInt 5"
    by code_simp
  have e1: "fst (snd ?rv1) = PInt 1700000000000" by code_simp
  have e2: "fst (snd ?rv2) = PInt 5" by code_simp
  note t1 = version_resolved_and_written [OF r1 l1 v1, unfolded e1]
  note t2 = version_resolved_and_written [OF r2 l2 v2, unfolded e2]
  from t1 t2 l1 l2 c1 c2 e1 e2
  show ?thesis unfolding list_all_iff by simp
qed

text \<open>The stores of the trace, in order: each keeps the objects of the ones before.\<close>

lemma sync_row_chain:
  assumes "sync_row C stream state name ver te row (w, sch, n) = (t, (w', sch', n'), r)"
  shows "sorted_wrt (\<lambda>x y. keeps_objects state (snd x) (snd y)) t"
proof (cases "update_bookmark C row (heap w) state (stream_id stream) name")
  case (Inl e)
  with assms show ?thesis
    by (cases "row_to_schema C sch row")
       (auto simp: sync_row_def Let_def keeps_objects_refl split: if_splits)
next
  case (Inr h2)
  have k3: "keeps_objects state (heap w) (h2 @ [h2 ! state])"
    using keeps_objects_update_bookmark [OF Inr] keeps_objects_deepcopy [of state h2]
    by (auto simp: deepcopy_def intro: keeps_objects_trans)
  from assms Inr k3 show ?thesis
    by (cases "row_to_schema C sch row")
       (auto simp: sync_row_def Let_def deepcopy_def keeps_objects_refl sorted_wrt_append
             split: if_splits)
qed

lemma sync_rows_chain:
  assumes "sync_rows C stream state name ver te rs (w, sch, n) = (tr, (w', sch', n'), r)"
    and "state < length (heap w)"
  shows "sorted_wrt (\<lambda>x y. keeps_objects state (snd x) (snd y)) tr"
  using assms
proof (induction rs arbitrary: w sch n tr)
  case Nil
  then show ?case by simp
next
  case (Cons row rest)
  obtain t w1 sch1 n1 r1 where
    step: "sync_row C stream state name ver te row (w, sch, n) = (t, (w1, sch1, n1), r1)"
    by (metis prod_cases3)
  note c1 = sync_row_chain [OF step]
  note h1 = sync_row_heap [OF step Cons.prems(2)]
  show ?case
  proof (cases r1)
    case (Some e)
    with Cons.prems(1) step c1 show ?thesis by simp
  next
    case None
    obtain t' where
      rest: "sync_rows C stream state name ver te rest (w1, sch1, n1) = (t', (w', sch', n'), r)"
      and tr: "tr = t @ t'"
      using Cons.prems(1) step None by (auto split: prod.splits)
    have len1: "state < length (heap w1)"
      using h1 Cons.prems(2) by (simp add: keeps_objects_def)
    note ih = Cons.IH [OF rest len1]
    note h2 = sync_rows_heap [OF rest len1]
    have cross: "\<forall>x \<in> set t. \<forall>y \<in> set t'. keeps_objects state (snd x) (snd y)"
      using h1 h2 by (fastforce intro: keeps_objects_trans)
    show ?thesis unfolding tr using c1 ih cross by (simp add: sorted_wrt_append)
  qed
qed

lemma sync_collection_stores:
  fixes C :: "('ty, 'rec) common"
  assumes run: "sync_collection C collection stream (Some state) projection now_ms te w
                  = (tr, w', r)"
    and len: "state < length (heap w)"
  shows "(\<forall>(e, hs) \<in> set tr.
            keeps_objects state hs (heap w') \<and>
            (\<forall>a. e = Emit (StateMessage a) \<longrightarrow>
               length (heap w) \<le> a \<and> a < length hs \<and> a \<noteq> state \<and> hs ! a = hs ! state)) \<and>
         sorted_wrt (\<lambda>x y. keeps_objects state (snd x) (snd y)) tr"
proof -
  obtain fr v h1 where rv: "resolve_version (heap w) state (stream_id stream) now_ms = (fr, v, h1)"
    by (metis prod_cases3)
  define act :: "('ty, 'rec) message"
    where "act = ActivateVersionMessage (calculate_destination_stream_name C stream) v"
  define t1 :: "('ty, 'rec) trace" where "t1 = (if fr then [(Emit act, h1)] else [])"
  define h2 where "h2 = h1 @ [h1 ! state]"
  let ?ok = "\<lambda>hf (e, hs). keeps_objects state hs hf \<and>
            (\<forall>a. e = Emit (StateMessage a) \<longrightarrow>
               length (heap w) \<le> a \<and> a < length hs \<and> a \<noteq> state \<and> hs ! a = hs ! state)"
  let ?le = "\<lambda>x y. keeps_objects state (snd x) (snd y)"
  have l1: "length h1 = length (heap w)"
    using resolve_version_eq(3) [OF rv] by (simp add: length_write_bookmark)
  have k12: "keeps_objects state h1 h2"
    using keeps_objects_deepcopy [of state h1] by (simp add: h2_def deepcopy_def)
  have s2: "h2 ! length h1 = h2 ! state" "length h1 \<noteq> state" "length h1 < length h2"
    using l1 len by (simp_all add: h2_def nth_append)
  have l2: "state < length (heap (w\<lparr>heap := h2\<rparr>))"
    using l1 len by (simp add: h2_def)
  have t1s: "\<forall>(e, hs) \<in> set t1. hs = h1 \<and> (\<forall>a. e \<noteq> Emit (StateMessage a))"
    "sorted_wrt ?le t1"
    by (cases fr; simp add: t1_def act_def)+
  from run rv act_def t1_def h2_def show ?thesis
  proof (cases rule: sync_collection_cases)
    case no_metadata
    then show ?thesis using t1s by (auto simp: keeps_objects_refl)
  next
    case (filter_raises md e)
    then show ?thesis
      using t1s k12 s2 l1 by (auto simp: keeps_objects_refl sorted_wrt_append)
  next
    case (find_raises md f e)
    then show ?thesis
      using t1s k12 s2 l1 by (auto simp: keeps_objects_refl sorted_wrt_append)
  next
    case (loop_raises md f cursor t4 sch n r4 e)
    note hp = sync_rows_heap [OF loop_raises(4) l2]
    note ch = sync_rows_chain [OF loop_raises(4) l2]
    have k2w: "keeps_objects state h2 (heap w')" using hp by simp
    have k1w: "keeps_objects state h1 (heap w')"
      using k12 k2w by (rule keeps_objects_trans)
    have p4: "\<forall>(e, hs) \<in> set t4. keeps_objects state h2 hs \<and> keeps_objects state h1 hs \<and>
                keeps_objects state hs (heap w') \<and>
                (\<forall>a. e = Emit (StateMessage a) \<longrightarrow>
                   length (heap w) \<le> a \<and> a < length hs \<and> a \<noteq> state \<and> hs ! a = hs ! state)"
      using hp k12 l1 by (fastforce simp: h2_def intro: keeps_objects_trans)
    have x14: "\<forall>x \<in> set t1. \<forall>y \<in> set t4. keeps_objects state (snd x) (snd y)"
      using t1s(1) p4 by fastforce
    have x24: "\<forall>y \<in> set t4. keeps_objects state h2 (snd y) \<and>
                 keeps_objects state (snd y) (heap w')"
      using p4 by fastforce
    show ?thesis
      unfolding loop_raises(6)
      using t1s k12 s2 l1 k1w k2w p4 ch x14 x24
      by (auto simp: keeps_objects_refl sorted_wrt_append)
  next
    case (returns md f cursor t4 w4 sch n)
    note hp = sync_rows_heap [OF returns(5) l2]
    note ch = sync_rows_chain [OF returns(5) l2]
    have hw: "heap w' = heap w4" using returns(7) by simp
    have k2w: "keeps_objects state h2 (heap w4)" using hp by simp
    have k1w: "keeps_objects state h1 (heap w4)"
      using k12 k2w by (rule keeps_objects_trans)
    have p4: "\<forall>(e, hs) \<in> set t4. keeps_objects state h2 hs \<and> keeps_objects state h1 hs \<and>
                keeps_objects state hs (heap w4) \<and>
                (\<forall>a. e = Emit (StateMessage a) \<longrightarrow>
                   length (heap w) \<le> a \<and> a < length hs \<and> a \<noteq> state \<and> hs ! a = hs ! state)"
      using hp k12 l1 by (fastforce simp: h2_def intro: keeps_objects_trans)
    have x14: "\<forall>x \<in> set t1. \<forall>y \<in> set t4. keeps_objects state (snd x) (snd y)"
      using t1s(1) p4 by fastforce
    have x24: "\<forall>y \<in> set t4. keeps_objects state h2 (snd y) \<and>
                 keeps_objects state (snd y) (heap w4)"
      using p4 by fastforce
    have actn: "\<And>a. act \<noteq> StateMessage a"
      by (simp add: act_def)
    show ?thesis
      unfolding returns(6) hw
      using t1s k12 s2 l1 k1w k2w p4 ch x14 x24 actn
      by (auto simp: keeps_objects_refl sorted_wrt_append)
  qed
qed

text \<open>
  C9. Every STATE message of a run, the first one and the periodic ones, holds a
  reference \<open>a\<close> to an object that is not the state object and did not exist when the
  run was called; when the message is written that object has the contents of the state;
  and at every later effect of the run, and when the run ends, it still has the contents
  it had when the message was written, whatever \<^verbatim>\<open>update_bookmark\<close> has since written
  into the state.
\<close>

theorem state_messages_are_copies:
  fixes C :: "('ty, 'rec) common"
  assumes run: "sync_collection C collection stream (Some state) projection now_ms te w
                  = (tr, w', r)"
    and len: "state < length (heap w)"
  shows "\<forall>i < length tr. \<forall>a. fst (tr ! i) = Emit (StateMessage a) \<longrightarrow>
           a \<noteq> state \<and> length (heap w) \<le> a \<and>
           snd (tr ! i) ! a = snd (tr ! i) ! state \<and>
           (\<forall>j. i \<le> j \<and> j < length tr \<longrightarrow> snd (tr ! j) ! a = snd (tr ! i) ! a) \<and>
           heap w' ! a = snd (tr ! i) ! a"
proof (intro allI impI)
  fix i a
  assume i: "i < length tr" and m: "fst (tr ! i) = Emit (StateMessage a)"
  note st = sync_collection_stores [OF run len]
  have mem: "(Emit (StateMessage a), snd (tr ! i)) \<in> set tr"
    using i m by (metis nth_mem prod.collapse)
  from st mem have k: "keeps_objects state (snd (tr ! i)) (heap w')"
    and a: "length (heap w) \<le> a" "a < length (snd (tr ! i))" "a \<noteq> state"
           "snd (tr ! i) ! a = snd (tr ! i) ! state"
    by auto
  have fin: "heap w' ! a = snd (tr ! i) ! a"
    using k a(2,3) by (simp add: keeps_objects_def)
  have later: "snd (tr ! j) ! a = snd (tr ! i) ! a" if "i \<le> j \<and> j < length tr" for j
  proof (cases "i = j")
    case True
    then show ?thesis by simp
  next
    case False
    with that have "i < j" "j < length tr" by simp_all
    with st have "keeps_objects state (snd (tr ! i)) (snd (tr ! j))"
      by (simp add: sorted_wrt_iff_nth_less)
    with a(2,3) show ?thesis by (simp add: keeps_objects_def)
  qed
  from a fin later
  show "a \<noteq> state \<and> length (heap w) \<le> a \<and>
        snd (tr ! i) ! a = snd (tr ! i) ! state \<and>
        (\<forall>j. i \<le> j \<and> j < length tr \<longrightarrow> snd (tr ! j) ! a = snd (tr ! i) ! a) \<and>
        heap w' ! a = snd (tr ! i) ! a"
    by blast
qed

theorem state_messages_are_copies_witness:
  "(0::nat) < length (heap example_world) \<and>
   6 < length (fst example_run) \<and>
   fst (fst example_run ! 6) = Emit (StateMessage 2) \<and>
   snd (fst example_run ! 6) ! 2 = snd (fst example_run ! 6) ! 0 \<and>
   snd (fst example_run ! 8) ! 2 = snd (fst example_run ! 6) ! 2 \<and>
   heap (fst (snd example_run)) ! 2 = snd (fst example_run ! 6) ! 2 \<and>
   get_bookmark (heap (fst (snd example_run))) 2 ''shop-orders'' ''replication_key_value''
     = PStr ''2'' \<and>
   get_bookmark (heap (fst (snd example_run))) 0 ''shop-orders'' ''replication_key_value''
     = PStr ''3''"
proof -
  have r1: "sync_collection example_common (example_collection example_docs) example_stream
              (Some 0) None 1700000000000 (PDatetime 0) example_world
            = (fst example_run, fst (snd example_run), snd (snd example_run))"
    by (simp add: example_run_def)
  have l1: "(0::nat) < length (heap example_world)" by (simp add: example_world_def)
  have n: "length (fst example_run) = 11"
    unfolding example_run_def by code_simp
  have m: "fst (fst example_run ! 6) = Emit (StateMessage 2)"
    unfolding example_run_def by code_simp
  have g: "get_bookmark (heap (fst (snd example_run))) 2 ''shop-orders'' ''replication_key_value''
             = PStr ''2''"
          "get_bookmark (heap (fst (snd example_run))) 0 ''shop-orders'' ''replication_key_value''
             = PStr ''3''"
    unfolding example_run_def by code_simp+
  from state_messages_are_copies [OF r1 l1, rule_format, of 6 2] n m
  have "snd (fst example_run ! 6) ! 2 = snd (fst example_run ! 6) ! 0 \<and>
        (\<forall>j. 6 \<le> j \<and> j < 11 \<longrightarrow> snd (fst example_run ! j) ! 2 = snd (fst example_run ! 6) ! 2) \<and>
        heap (fst (snd example_run)) ! 2 = snd (fst example_run ! 6) ! 2"
    by simp
  with l1 n m g show ?thesis by simp
qed

section \<open>The bookmark along the loop\<close>

text \<open>The bookmark after the loop: the last key that is true, serialised.\<close>

lemma sync_rows_append:
  "sync_rows C stream state name ver te (rs1 @ rs2) vars =
     (case sync_rows C stream state name ver te rs1 vars of
        (t1, vars1, Some e) \<Rightarrow> (t1, vars1, Some e)
      | (t1, vars1, None) \<Rightarrow>
          (case sync_rows C stream state name ver te rs2 vars1 of
             (t2, vars2, r) \<Rightarrow> (t1 @ t2, vars2, r)))"
  by (induction rs1 arbitrary: vars) (auto split: prod.splits option.splits)

lemma update_bookmark_truthy_get:
  assumes "state < length h" and "truthy (row_get row name)"
    and "update_bookmark C row h state i name = Inr h'"
  shows "\<exists>s. class_to_string C (row_get row name) (class_name (row_get row name)) = Inr s \<and>
             get_bookmark h' state i ''replication_key_value'' = PStr s \<and>
             get_bookmark h' state i ''replication_key_type''
               = PStr (class_name (row_get row name))"
proof (cases "class_to_string C (row_get row name) (class_name (row_get row name))")
  case (Inl e)
  with assms(2,3) show ?thesis by (simp add: update_bookmark_raises)
next
  case (Inr s)
  with assms show ?thesis
    by (auto simp: update_bookmark_writes get_bookmark_write_bookmark length_write_bookmark)
qed

lemma sync_row_bookmark:
  assumes "sync_row C stream state name ver te row (w, sch, n) = (t, (w', sch', n'), None)"
    and "state < length (heap w)"
  shows "if truthy (row_get row name)
         then \<exists>s. class_to_string C (row_get row name) (class_name (row_get row name)) = Inr s \<and>
                  get_bookmark (heap w') state (stream_id stream) ''replication_key_value''
                    = PStr s \<and>
                  get_bookmark (heap w') state (stream_id stream) ''replication_key_type''
                    = PStr (class_name (row_get row name))
         else heap w' ! state = heap w ! state"
proof (cases "update_bookmark C row (heap w) state (stream_id stream) name")
  case (Inl e)
  with assms(1) show ?thesis
    by (cases "row_to_schema C sch row") (auto simp: sync_row_def Let_def split: if_splits)
next
  case (Inr h2)
  have l2: "length h2 = length (heap w)"
    using Inr by (rule update_bookmark_length)
  have hw: "heap w' ! state = h2 ! state"
    using assms Inr l2
    by (cases "row_to_schema C sch row")
       (auto simp: sync_row_def Let_def deepcopy_def nth_append split: if_splits)
  have gw: "get_bookmark (heap w') state j k = get_bookmark h2 state j k" for j k
    using hw by (rule get_bookmark_cong)
  show ?thesis
  proof (cases "truthy (row_get row name)")
    case False
    with Inr have "h2 = heap w" by (simp add: update_bookmark_falsy)
    with hw False show ?thesis by simp
  next
    case True
    with update_bookmark_truthy_get [OF assms(2) True Inr]
    show ?thesis by (simp add: gw)
  qed
qed

lemma sync_rows_unchanged:
  assumes "sync_rows C stream state name ver te rs (w, sch, n) = (tr, (w', sch', n'), None)"
    and "state < length (heap w)"
    and "\<forall>row \<in> set rs. \<not> truthy (row_get row name)"
  shows "heap w' ! state = heap w ! state"
  using assms
proof (induction rs arbitrary: w sch n tr)
  case Nil
  then show ?case by simp
next
  case (Cons row rest)
  obtain t w1 sch1 n1 r1 where
    step: "sync_row C stream state name ver te row (w, sch, n) = (t, (w1, sch1, n1), r1)"
    by (metis prod_cases3)
  have r1: "r1 = None" using Cons.prems(1) step by (cases r1) auto
  obtain t' where
    rest: "sync_rows C stream state name ver te rest (w1, sch1, n1) = (t', (w', sch', n'), None)"
    using Cons.prems(1) step r1 by (auto split: prod.splits)
  have len1: "state < length (heap w1)"
    using sync_row_heap [OF step Cons.prems(2)] Cons.prems(2) by (simp add: keeps_objects_def)
  have "heap w1 ! state = heap w ! state"
    using sync_row_bookmark [OF step [unfolded r1] Cons.prems(2)] Cons.prems(3) by simp
  moreover have "heap w' ! state = heap w1 ! state"
    using Cons.IH [OF rest len1] Cons.prems(3) by simp
  ultimately show ?case by simp
qed

lemma sync_rows_bookmark:
  assumes "sync_rows C stream state name ver te rs (w, sch, n) = (tr, (w', sch', n'), None)"
    and "state < length (heap w)"
    and "filter truthy (map (\<lambda>row. row_get row name) rs) \<noteq> []"
  shows "\<exists>s. class_to_string C (last (filter truthy (map (\<lambda>row. row_get row name) rs)))
                (class_name (last (filter truthy (map (\<lambda>row. row_get row name) rs)))) = Inr s \<and>
             get_bookmark (heap w') state (stream_id stream) ''replication_key_value'' = PStr s \<and>
             get_bookmark (heap w') state (stream_id stream) ''replication_key_type''
               = PStr (class_name (last (filter truthy (map (\<lambda>row. row_get row name) rs))))"
  using assms
proof (induction rs arbitrary: w sch n tr)
  case Nil
  then show ?case by simp
next
  case (Cons row rest)
  let ?keys = "\<lambda>rs. filter truthy (map (\<lambda>row. row_get row name) rs)"
  obtain t w1 sch1 n1 r1 where
    step: "sync_row C stream state name ver te row (w, sch, n) = (t, (w1, sch1, n1), r1)"
    by (metis prod_cases3)
  have r1: "r1 = None" using Cons.prems(1) step by (cases r1) auto
  obtain t' where
    rest: "sync_rows C stream state name ver te rest (w1, sch1, n1) = (t', (w', sch', n'), None)"
    using Cons.prems(1) step r1 by (auto split: prod.splits)
  have len1: "state < length (heap w1)"
    using sync_row_heap [OF step Cons.prems(2)] Cons.prems(2) by (simp add: keeps_objects_def)
  note b1 = sync_row_bookmark [OF step [unfolded r1] Cons.prems(2)]
  show ?case
  proof (cases "?keys rest = []")
    case False
    then have "last (?keys (row # rest)) = last (?keys rest)" by simp
    with Cons.IH [OF rest len1 False] show ?thesis by simp
  next
    case True
    then have none: "\<forall>row \<in> set rest. \<not> truthy (row_get row name)"
      by (auto simp: filter_empty_conv)
    have same: "heap w' ! state = heap w1 ! state"
      using sync_rows_unchanged [OF rest len1 none] .
    have t: "truthy (row_get row name)" and l: "last (?keys (row # rest)) = row_get row name"
      using Cons.prems(3) True by (auto split: if_splits)
    from b1 t get_bookmark_cong [OF same] show ?thesis unfolding l by simp
  qed
qed

lemma last_filter_mem: "filter P xs \<noteq> [] \<Longrightarrow> last (filter P xs) \<in> set xs \<and> P (last (filter P xs))"
proof -
  assume ne: "filter P xs \<noteq> []"
  then have "last (filter P xs) \<in> set (filter P xs)" by (rule last_in_set)
  then show ?thesis by simp
qed

text \<open>
  C1. The cursor yields the rows \<open>rs1 @ rs2\<close> in ascending order of the replication key,
  in an order \<open>le\<close> of the driver that holds between a key and itself, and the loop
  processes them all; \<open>w1\<close> is the world after the rows \<open>rs1\<close>, \<open>w2\<close> the world after all
  of them, so after a later call of \<^verbatim>\<open>update_bookmark\<close>. Where the helpers round-trip the
  keys of the rows and a row of \<open>rs1\<close> has stored a bookmark in this run, the bookmark
  stored in \<open>w2\<close>, decoded, is at or above the one stored in \<open>w1\<close>, decoded.
\<close>

theorem bookmark_never_regresses:
  fixes C :: "('ty, 'rec) common"
  assumes whole: "sync_rows C stream state name ver te (rs1 @ rs2) (w, sch, n)
                    = (tr, (w2, sch2, n2), None)"
    and part: "sync_rows C stream state name ver te rs1 (w, sch, n) = (tr1, (w1, sch1, n1), r1)"
    and len: "state < length (heap w)"
    and ascending: "sorted_wrt (\<lambda>row row'. le (row_get row name) (row_get row' name)) (rs1 @ rs2)"
    and refl: "\<forall>row \<in> set (rs1 @ rs2). le (row_get row name) (row_get row name)"
    and rt: "\<forall>row \<in> set (rs1 @ rs2). truthy (row_get row name) \<longrightarrow> round_trips C (row_get row name)"
    and stored: "\<exists>row \<in> set rs1. truthy (row_get row name)"
  shows "\<exists>x y. bookmarked_value C (heap w1) state (stream_id stream) = Inr x \<and>
               bookmarked_value C (heap w2) state (stream_id stream) = Inr y \<and>
               le x y"
proof -
  let ?key = "\<lambda>row. row_get row name"
  let ?keys = "\<lambda>rs. filter truthy (map ?key rs)"
  let ?sid = "stream_id stream"
  have r1: "r1 = None"
    using whole part by (cases r1) (auto simp: sync_rows_append)
  obtain t2 where
    cont: "sync_rows C stream state name ver te rs2 (w1, sch1, n1) = (t2, (w2, sch2, n2), None)"
    using whole part r1 by (auto simp: sync_rows_append split: prod.splits)
  have len1: "state < length (heap w1)"
    using sync_rows_heap [OF part len] len by (simp add: keeps_objects_def)
  have decode: "bookmarked_value C h state ?sid = Inr k"
    if "class_to_string C k (class_name k) = Inr s"
       "get_bookmark h state ?sid ''replication_key_value'' = PStr s"
       "get_bookmark h state ?sid ''replication_key_type'' = PStr (class_name k)"
       "round_trips C k" for h k s
    using that by (simp add: bookmarked_value_def round_trips_def)
  have ne1: "?keys rs1 \<noteq> []"
    using stored by (auto simp: filter_empty_conv)
  define k1 where "k1 = last (?keys rs1)"
  have k1m: "k1 \<in> ?key ` set rs1" "truthy k1"
    using last_filter_mem [OF ne1] by (simp_all add: k1_def)
  have rt1: "round_trips C k1" and refl1: "le k1 k1"
    using k1m rt refl by auto
  from sync_rows_bookmark [OF part [unfolded r1] len ne1]
  obtain s1 where s1: "class_to_string C k1 (class_name k1) = Inr s1"
      "get_bookmark (heap w1) state ?sid ''replication_key_value'' = PStr s1"
      "get_bookmark (heap w1) state ?sid ''replication_key_type'' = PStr (class_name k1)"
    unfolding k1_def by blast
  have x: "bookmarked_value C (heap w1) state ?sid = Inr k1"
    using decode [OF s1 rt1] .
  show ?thesis
  proof (cases "?keys rs2 = []")
    case True
    then have none: "\<forall>row \<in> set rs2. \<not> truthy (row_get row name)"
      by (auto simp: filter_empty_conv)
    have same: "heap w2 ! state = heap w1 ! state"
      using sync_rows_unchanged [OF cont len1 none] .
    have "bookmarked_value C (heap w2) state ?sid = Inr k1"
      using x get_bookmark_cong [OF same] by (simp add: bookmarked_value_def)
    with x refl1 show ?thesis by blast
  next
    case False
    define k2 where "k2 = last (?keys rs2)"
    have k2m: "k2 \<in> ?key ` set rs2" "truthy k2"
      using last_filter_mem [OF False] by (simp_all add: k2_def)
    have rt2: "round_trips C k2"
      using k2m rt by auto
    from sync_rows_bookmark [OF cont len1 False]
    obtain s2 where s2: "class_to_string C k2 (class_name k2) = Inr s2"
        "get_bookmark (heap w2) state ?sid ''replication_key_value'' = PStr s2"
        "get_bookmark (heap w2) state ?sid ''replication_key_type'' = PStr (class_name k2)"
      unfolding k2_def by blast
    have y: "bookmarked_value C (heap w2) state ?sid = Inr k2"
      using decode [OF s2 rt2] .
    have "le k1 k2"
      using ascending k1m(1) k2m(1) by (auto simp: sorted_wrt_append)
    with x y show ?thesis by blast
  qed
qed

theorem bookmark_never_regresses_witness:
  "snd (snd (example_loop example_docs)) = None \<and>
   (0::nat) < length (heap example_world) \<and>
   sorted_wrt (\<lambda>row row'. example_le (row_get row (Some ''updated_at''))
                                      (row_get row' (Some ''updated_at''))) example_docs \<and>
   list_all (\<lambda>row. example_le (row_get row (Some ''updated_at''))
                               (row_get row (Some ''updated_at''))) example_docs \<and>
   list_all (\<lambda>row. truthy (row_get row (Some ''updated_at'')) \<and>
                    round_trips example_common (row_get row (Some ''updated_at''))) example_docs \<and>
   list_ex (\<lambda>row. truthy (row_get row (Some ''updated_at''))) (take 1 example_docs) \<and>
   (\<exists>x y.
      bookmarked_value example_common
        (heap (fst (fst (snd (example_loop (take 1 example_docs)))))) 0 ''shop-orders'' = Inr x \<and>
      bookmarked_value example_common
        (heap (fst (fst (snd (example_loop example_docs))))) 0 ''shop-orders'' = Inr y \<and>
      example_le x y)"
proof -
  let ?rs1 = "take 1 example_docs" and ?rs2 = "drop 1 example_docs"
  let ?key = "\<lambda>row. row_get row (Some ''updated_at'')"
  let ?X = "example_loop (?rs1 @ ?rs2)" and ?Y = "example_loop ?rs1"
  have ret: "snd (snd (example_loop example_docs)) = None"
    unfolding example_loop_def by code_simp
  have whole: "sync_rows example_common example_stream 0 (Some ''updated_at'') (PInt 1)
                 (PDatetime 0) (?rs1 @ ?rs2) (example_world, [], 0)
               = (fst ?X, (fst (fst (snd ?X)), fst (snd (fst (snd ?X))), snd (snd (fst (snd ?X)))),
                  None)"
    using ret by (simp add: example_loop_def prod_eq_iff)
  have part: "sync_rows example_common example_stream 0 (Some ''updated_at'') (PInt 1)
                (PDatetime 0) ?rs1 (example_world, [], 0)
              = (fst ?Y, (fst (fst (snd ?Y)), fst (snd (fst (snd ?Y))), snd (snd (fst (snd ?Y)))),
                 snd (snd ?Y))"
    by (simp add: example_loop_def)
  have len: "(0::nat) < length (heap example_world)" by (simp add: example_world_def)
  have asc: "sorted_wrt (\<lambda>row row'. example_le (?key row) (?key row')) example_docs"
    by code_simp
  have refl: "list_all (\<lambda>row. example_le (?key row) (?key row)) example_docs"
    by code_simp
  have rt: "list_all (\<lambda>row. truthy (?key row) \<and> round_trips example_common (?key row))
              example_docs"
    by code_simp
  have st: "list_ex (\<lambda>row. truthy (?key row)) ?rs1"
    by code_simp
  have sid: "stream_id example_stream = ''shop-orders''" by (simp add: example_stream_def)
  have "\<exists>x y.
      bookmarked_value example_common (heap (fst (fst (snd ?Y)))) 0 (stream_id example_stream)
        = Inr x \<and>
      bookmarked_value example_common (heap (fst (fst (snd ?X)))) 0 (stream_id example_stream)
        = Inr y \<and>
      example_le x y"
    using asc refl rt st
    by (intro bookmark_never_regresses [OF whole part len]) (simp_all add: list_all_iff list_ex_iff)
  with ret len asc refl rt st show ?thesis by (simp add: sid)
qed

section \<open>Keys that are false\<close>

text \<open>
  C10. A value that is false in Python's sense, \<^verbatim>\<open>None\<close> (also for an absent field),
  \<^verbatim>\<open>False\<close>, 0, 0.0, the empty string, empty bytes or an empty container, as the row's
  replication key makes \<^verbatim>\<open>update_bookmark\<close> return with the store exactly as it was; and
  whenever \<^verbatim>\<open>update_bookmark\<close> changes the store the key is a true value, and what the
  store then holds is the serialisation of that value and the name of its class.
\<close>

theorem update_bookmark_falsy_key:
  assumes "state < length h"
  shows "(row_get row name \<in> {PNone, PBool False, PInt 0, PInt64 0, PFloat 0, PStr [],
                               PBytes [], PList [], PDict []}
            \<longrightarrow> \<not> truthy (row_get row name)) \<and>
         (\<not> truthy (row_get row name) \<longrightarrow> update_bookmark C row h state i name = Inr h) \<and>
         (\<forall>h'. update_bookmark C row h state i name = Inr h' \<and> h' \<noteq> h \<longrightarrow>
            truthy (row_get row name) \<and>
            (\<exists>s. class_to_string C (row_get row name) (class_name (row_get row name)) = Inr s \<and>
                 get_bookmark h' state i ''replication_key_value'' = PStr s \<and>
                 get_bookmark h' state i ''replication_key_type''
                   = PStr (class_name (row_get row name))))"
proof (intro conjI impI allI)
  assume "row_get row name \<in> {PNone, PBool False, PInt 0, PInt64 0, PFloat 0, PStr [],
                                PBytes [], PList [], PDict []}"
  then show "\<not> truthy (row_get row name)" by auto
next
  assume "\<not> truthy (row_get row name)"
  then show "update_bookmark C row h state i name = Inr h" by (rule update_bookmark_falsy)
next
  fix h'
  assume a: "update_bookmark C row h state i name = Inr h' \<and> h' \<noteq> h"
  show "truthy (row_get row name)"
  proof (rule ccontr)
    assume "\<not> truthy (row_get row name)"
    then have "update_bookmark C row h state i name = Inr h" by (rule update_bookmark_falsy)
    with a show False by auto
  qed
  then show "\<exists>s. class_to_string C (row_get row name) (class_name (row_get row name)) = Inr s \<and>
                 get_bookmark h' state i ''replication_key_value'' = PStr s \<and>
                 get_bookmark h' state i ''replication_key_type''
                   = PStr (class_name (row_get row name))"
    using update_bookmark_truthy_get [OF assms _ conjunct1 [OF a]] by simp
qed

theorem update_bookmark_falsy_key_witness:
  "(0::nat) < length [empty_state] \<and>
   list_all (\<lambda>k. \<not> truthy (row_get [(''updated_at'', k)] (Some ''updated_at'')) \<and>
                  update_bookmark example_common [(''updated_at'', k)] [empty_state] 0
                    ''shop-orders'' (Some ''updated_at'') = Inr [empty_state])
     [PNone, PBool False, PInt 0, PFloat 0, PFloat 0x8000000000000000, PStr [], PList [],
      PDict []] \<and>
   \<not> truthy (row_get [(''_id'', PInt 4)] (Some ''updated_at'')) \<and>
   update_bookmark example_common [(''_id'', PInt 4)] [empty_state] 0
     ''shop-orders'' (Some ''updated_at'') = Inr [empty_state] \<and>
   (\<exists>h'. update_bookmark example_common [(''updated_at'', PInt 7)] [empty_state] 0
            ''shop-orders'' (Some ''updated_at'') = Inr h' \<and> h' \<noteq> [empty_state] \<and>
         truthy (row_get [(''updated_at'', PInt 7)] (Some ''updated_at'')) \<and>
         get_bookmark h' 0 ''shop-orders'' ''replication_key_value'' = PStr ''7'')"
proof -
  have len: "(0::nat) < length [empty_state]" by simp
  note t = update_bookmark_falsy_key [OF len, where C = example_common and i = "''shop-orders''"
             and name = "Some ''updated_at''"]
  have f: "list_all (\<lambda>k. \<not> truthy (row_get [(''updated_at'', k)] (Some ''updated_at'')))
             [PNone, PBool False, PInt 0, PFloat 0, PFloat 0x8000000000000000, PStr [], PList [],
              PDict []]"
    by (simp add: row_get_def dict_get_def)
  have f2: "\<not> truthy (row_get [(''_id'', PInt 4)] (Some ''updated_at''))"
    by (simp add: row_get_def dict_get_def)
  obtain h' where h': "update_bookmark example_common [(''updated_at'', PInt 7)] [empty_state] 0
            ''shop-orders'' (Some ''updated_at'') = Inr h'" "h' \<noteq> [empty_state]"
    by (simp add: update_bookmark_def row_get_def dict_get_def example_common_def
          example_class_to_string_def write_bookmark_def set_bookmark_def empty_state_def
          stream_bookmark_def)
  have s7: "class_to_string example_common (row_get [(''updated_at'', PInt 7)] (Some ''updated_at''))
              (class_name (row_get [(''updated_at'', PInt 7)] (Some ''updated_at''))) = Inr ''7''"
    by code_simp
  from t [of "[(''updated_at'', PInt 7)]"] h' s7
  have w: "truthy (row_get [(''updated_at'', PInt 7)] (Some ''updated_at'')) \<and>
           get_bookmark h' 0 ''shop-orders'' ''replication_key_value'' = PStr ''7''"
    by auto
  have a: "list_all (\<lambda>k. \<not> truthy (row_get [(''updated_at'', k)] (Some ''updated_at'')) \<and>
                  update_bookmark example_common [(''updated_at'', k)] [empty_state] 0
                    ''shop-orders'' (Some ''updated_at'') = Inr [empty_state])
     [PNone, PBool False, PInt 0, PFloat 0, PFloat 0x8000000000000000, PStr [], PList [],
      PDict []]"
    using f t by (simp add: list_all_iff)
  from a len f2 t [of "[(''_id'', PInt 4)]"] h' w show ?thesis by blast
qed

section \<open>The query\<close>

lemma sync_rows_no_find:
  assumes "sync_rows C stream state name ver te rs (w, sch, n) = (tr, (w', sch', n'), r)"
  shows "filter is_find (map fst tr) = []"
  using sync_rows_events [OF assms] by (auto simp: filter_empty_conv)

lemma filter_accepts_gte:
  "filter_accepts le [(k, [(''$gte'', v)])] row \<longleftrightarrow> le v (row_get row k)"
  by (simp add: filter_accepts_def)

lemma filter_accepts_empty: "filter_accepts le [] row"
  by (simp add: filter_accepts_def)

text \<open>
  C2, as the code has it. For a stream with top-level metadata, \<open>bm\<close> and \<open>ty\<close> being the
  \<^verbatim>\<open>replication_key_value\<close> and \<^verbatim>\<open>replication_key_type\<close> the state holds for the stream
  when the run is called: when \<open>bm\<close> is a true value in Python's sense the one call of
  \<open>find\<close> has the filter \<^verbatim>\<open>{key: {'$gte': string_to_class(bm, ty)}}\<close>, which the driver
  reads as: the key of the row is at or above the decoded bookmark, the equal key
  included; when \<^verbatim>\<open>string_to_class\<close> raises, the run raises the same and \<open>find\<close> is not
  called. When \<open>bm\<close> is absent, \<^verbatim>\<open>None\<close> or another false value, such as the empty string,
  the filter is the empty one, which every row passes.
\<close>

theorem find_filter_from_bookmark:
  fixes C :: "('ty, 'rec) common"
  assumes run: "sync_collection C collection stream (Some state) projection now_ms te w
                  = (tr, w', r)"
    and len: "state < length (heap w)"
    and md: "top_level_metadata stream = Some md"
    and bm: "bm = get_bookmark (heap w) state (stream_id stream) ''replication_key_value''"
    and ty: "ty = get_bookmark (heap w) state (stream_id stream) ''replication_key_type''"
  shows "(truthy bm \<longrightarrow>
            (case string_to_class C bm ty of
               Inl e \<Rightarrow> r = Some e \<and> filter is_find (map fst tr) = []
             | Inr v \<Rightarrow>
                 filter is_find (map fst tr)
                   = [Find [(replication_key md, [(''$gte'', v)])] projection
                        [(replication_key md, ASCENDING)]] \<and>
                 (\<forall>le row. filter_accepts le [(replication_key md, [(''$gte'', v)])] row
                              \<longleftrightarrow> le v (row_get row (replication_key md))))) \<and>
         (\<not> truthy bm \<longrightarrow>
            filter is_find (map fst tr)
              = [Find [] projection [(replication_key md, ASCENDING)]] \<and>
            (\<forall>le row. filter_accepts le [] row))"
proof -
  let ?sid = "stream_id stream"
  obtain fr v h1 where rv: "resolve_version (heap w) state ?sid now_ms = (fr, v, h1)"
    by (metis prod_cases3)
  define act :: "('ty, 'rec) message"
    where "act = ActivateVersionMessage (calculate_destination_stream_name C stream) v"
  define t1 :: "('ty, 'rec) trace" where "t1 = (if fr then [(Emit act, h1)] else [])"
  define h2 where "h2 = h1 @ [h1 ! state]"
  have h1: "h1 = write_bookmark (heap w) state ?sid ''version'' v"
    using resolve_version_eq(3) [OF rv] .
  have g: "dict_get (stream_bookmark (h1 ! state) ?sid) k = get_bookmark (heap w) state ?sid k"
    if "k \<noteq> ''version''" for k
    using get_bookmark_write_bookmark [OF len, of ?sid "''version''" v ?sid k] that
    by (simp add: h1 get_bookmark_def)
  have bf: "build_find_filter C (stream_bookmark (h1 ! state) ?sid) (replication_key md) =
              (if truthy bm
               then (case string_to_class C bm ty of
                       Inl e \<Rightarrow> Inl e
                     | Inr v \<Rightarrow> Inr [(replication_key md, [(''$gte'', v)])])
               else Inr [])"
    by (simp add: build_find_filter_def Let_def g bm ty)
  have f1: "filter is_find (map fst t1) = []"
    by (cases fr; simp add: t1_def)
  from run rv act_def t1_def h2_def
  have main: "case build_find_filter C (stream_bookmark (h1 ! state) ?sid) (replication_key md) of
                Inl e \<Rightarrow> r = Some e \<and> filter is_find (map fst tr) = []
              | Inr f \<Rightarrow> filter is_find (map fst tr)
                           = [Find f projection [(replication_key md, ASCENDING)]]"
  proof (cases rule: sync_collection_cases)
    case no_metadata
    with md show ?thesis by simp
  next
    case (filter_raises md' e)
    with md f1 show ?thesis by simp
  next
    case (find_raises md' f e)
    with md f1 show ?thesis by simp
  next
    case (loop_raises md' f cursor t4 sch n r4 e)
    with md f1 sync_rows_no_find [OF loop_raises(4)] show ?thesis by simp
  next
    case (returns md' f cursor t4 w4 sch n)
    with md f1 sync_rows_no_find [OF returns(5)] show ?thesis by simp
  qed
  show ?thesis
    using main unfolding bf
    by (auto simp: filter_accepts_gte filter_accepts_empty split: sum.splits if_splits)
qed

theorem find_filter_from_bookmark_witness:
  "(0::nat) < length (heap resumed_world) \<and>
   top_level_metadata example_stream = Some \<lparr>replication_key = Some ''updated_at''\<rparr> \<and>
   truthy (get_bookmark (heap resumed_world) 0 ''shop-orders'' ''replication_key_value'') \<and>
   filter is_find (map fst (fst resumed_run))
     = [Find [(Some ''updated_at'', [(''$gte'', PInt 2)])] None
          [(Some ''updated_at'', ASCENDING)]] \<and>
   filter_accepts example_le [(Some ''updated_at'', [(''$gte'', PInt 2)])]
     [(''updated_at'', PInt 2)] \<and>
   \<not> filter_accepts example_le [(Some ''updated_at'', [(''$gte'', PInt 2)])]
     [(''updated_at'', PInt 1)] \<and>
   (0::nat) < length (heap example_world) \<and>
   \<not> truthy (get_bookmark (heap example_world) 0 ''shop-orders'' ''replication_key_value'') \<and>
   filter is_find (map fst (fst example_run))
     = [Find [] None [(Some ''updated_at'', ASCENDING)]]"
proof -
  let ?md = "\<lparr>replication_key = Some ''updated_at''\<rparr>"
  have r1: "sync_collection example_common (example_collection example_docs) example_stream
              (Some 0) None 1700000000000 (PDatetime 0) example_world
            = (fst example_run, fst (snd example_run), snd (snd example_run))"
    by (simp add: example_run_def)
  have r2: "sync_collection example_common (example_collection example_docs) example_stream
              (Some 0) None 1700000000000 (PDatetime 0) resumed_world
            = (fst resumed_run, fst (snd resumed_run), snd (snd resumed_run))"
    by (simp add: resumed_run_def)
  have l1: "(0::nat) < length (heap example_world)" by (simp add: example_world_def)
  have l2: "(0::nat) < length (heap resumed_world)" by (simp add: resumed_world_def)
  have md: "top_level_metadata example_stream = Some ?md" by (simp add: example_stream_def)
  have sid: "stream_id example_stream = ''shop-orders''" by (simp add: example_stream_def)
  have b1: "get_bookmark (heap example_world) 0 ''shop-orders'' ''replication_key_value'' = PNone"
    by code_simp
  have b2: "get_bookmark (heap resumed_world) 0 ''shop-orders'' ''replication_key_value''
              = PStr ''2''"
           "get_bookmark (heap resumed_world) 0 ''shop-orders'' ''replication_key_type''
              = PStr ''int''"
    by code_simp+
  have d: "string_to_class example_common (PStr ''2'') (PStr ''int'') = Inr (PInt 2)"
    by code_simp
  have a: "example_le (PInt 2) (row_get [(''updated_at'', PInt 2)] (Some ''updated_at''))"
          "\<not> example_le (PInt 2) (row_get [(''updated_at'', PInt 1)] (Some ''updated_at''))"
    by code_simp+
  note t1 = find_filter_from_bookmark [OF r1 l1 md refl refl, unfolded sid b1]
  note t2 = find_filter_from_bookmark [OF r2 l2 md refl refl, unfolded sid b2 d]
  from t1 t2 l1 l2 md b1 b2 a show ?thesis by simp
qed

text \<open>
  C2 as it is written fails on a bookmark that exists and is false: the stored
  \<^verbatim>\<open>replication_key_value\<close> is the empty string, of type \<^verbatim>\<open>str\<close>, which
  \<^verbatim>\<open>string_to_class\<close> decodes; the filter passed to \<open>find\<close> is the empty filter, not
  \<^verbatim>\<open>{'updated_at': {'$gte': ''}}\<close>.
\<close>

theorem find_filter_blank_bookmark_counterexample:
  "get_bookmark (heap blank_bookmark_world) 0 ''shop-orders'' ''replication_key_value'' \<noteq> PNone \<and>
   string_to_class example_common
     (get_bookmark (heap blank_bookmark_world) 0 ''shop-orders'' ''replication_key_value'')
     (get_bookmark (heap blank_bookmark_world) 0 ''shop-orders'' ''replication_key_type'')
     = Inr (PStr '''') \<and>
   filter is_find (map fst (fst blank_bookmark_run))
     = [Find [] None [(Some ''updated_at'', ASCENDING)]] \<and>
   filter is_find (map fst (fst blank_bookmark_run))
     \<noteq> [Find [(Some ''updated_at'', [(''$gte'', PStr '''')])] None
          [(Some ''updated_at'', ASCENDING)]]"
proof -
  have 1: "get_bookmark (heap blank_bookmark_world) 0 ''shop-orders'' ''replication_key_value''
             = PStr ''''"
    by code_simp
  have 2: "string_to_class example_common
     (get_bookmark (heap blank_bookmark_world) 0 ''shop-orders'' ''replication_key_value'')
     (get_bookmark (heap blank_bookmark_world) 0 ''shop-orders'' ''replication_key_type'')
     = Inr (PStr '''')"
    by code_simp
  have 3: "filter is_find (map fst (fst blank_bookmark_run))
     = [Find [] None [(Some ''updated_at'', ASCENDING)]]"
    unfolding blank_bookmark_run_def by code_simp
  from 1 2 3 show ?thesis by simp
qed

section \<open>A stream without a replication key\<close>

text \<open>
  C8, as the code has it. \<^verbatim>\<open>sync_collection\<close> does not check that the metadata designates
  a replication key. With a top-level metadata entry that has no \<^verbatim>\<open>replication-key\<close>, the
  name is \<^verbatim>\<open>None\<close>: the run resolves and stores the version, writes the first messages,
  builds the filter and calls \<open>find\<close> with \<^verbatim>\<open>None\<close> as the sort key, and it raises
  exactly what \<^verbatim>\<open>string_to_class\<close>, that call, the loop or the cursor raises. Only a stream
  with no top-level metadata entry at all makes line 91 raise, before the filter is
  built, and after the version is stored and the first ACTIVATE_VERSION written.
\<close>

theorem missing_replication_key_not_checked:
  fixes C :: "('ty, 'rec) common"
  assumes run: "sync_collection C collection stream (Some state) projection now_ms te w
                  = (tr, w', r)"
    and rv: "resolve_version (heap w) state (stream_id stream) now_ms = (fr, v, h1)"
    and act: "act = Emit (ActivateVersionMessage (calculate_destination_stream_name C stream) v)"
  shows "case top_level_metadata stream of
           None \<Rightarrow>
             r = Some AttributeError \<and> map fst tr = (if fr then [act] else []) \<and> heap w' = h1
         | Some md \<Rightarrow>
             replication_key md = None \<longrightarrow>
               (case build_find_filter C (stream_bookmark (h1 ! state) (stream_id stream)) None of
                  Inl e \<Rightarrow> r = Some e
                | Inr f \<Rightarrow>
                    (\<exists>rest. map fst tr = (if fr then [act] else []) @
                        [Emit (StateMessage (length h1)), Find f projection [(None, ASCENDING)]]
                        @ rest) \<and>
                    (case collection f projection [(None, ASCENDING)] of
                       Inl e \<Rightarrow> r = Some e
                     | Inr cursor \<Rightarrow>
                         r = (case snd (snd (sync_rows C stream state None v te (rows cursor)
                                               (w\<lparr>heap := h1 @ [h1 ! state]\<rparr>, [], 0))) of
                                Some e \<Rightarrow> Some e
                              | None \<Rightarrow> failure cursor)))"
proof -
  define a :: "('ty, 'rec) message"
    where "a = ActivateVersionMessage (calculate_destination_stream_name C stream) v"
  define t1 :: "('ty, 'rec) trace" where "t1 = (if fr then [(Emit a, h1)] else [])"
  define h2 where "h2 = h1 @ [h1 ! state]"
  have m1: "map fst t1 = (if fr then [act] else [])"
    by (simp add: t1_def act a_def)
  from run rv a_def t1_def h2_def show ?thesis
  proof (cases rule: sync_collection_cases)
    case no_metadata
    then show ?thesis using m1 by simp
  next
    case (filter_raises md e)
    then show ?thesis by auto
  next
    case (find_raises md f e)
    then show ?thesis using m1 by auto
  next
    case (loop_raises md f cursor t4 sch n r4 e)
    then show ?thesis using m1 by (auto simp: h2_def)
  next
    case (returns md f cursor t4 w4 sch n)
    then show ?thesis using m1 by (auto simp: h2_def)
  qed
qed

theorem missing_replication_key_not_checked_witness:
  "top_level_metadata keyless_stream = Some \<lparr>replication_key = None\<rparr> \<and>
   replication_key \<lparr>replication_key = None\<rparr> = None \<and>
   fst (resolve_version (heap example_world) 0 (stream_id keyless_stream) 1700000000000) \<and>
   (\<exists>rest. map fst (fst keyless_run) =
      [Emit (ActivateVersionMessage ''shop-orders'' (PInt 1700000000000))] @
      [Emit (StateMessage 1), Find [] None [(None, ASCENDING)]] @ rest) \<and>
   example_collection example_docs [] None [(None, ASCENDING)] = Inl (Raised ''TypeError'') \<and>
   snd (snd keyless_run) = Some (Raised ''TypeError'')"
proof -
  let ?rv = "resolve_version (heap example_world) 0 (stream_id keyless_stream) 1700000000000"
  have r: "sync_collection example_common (example_collection example_docs) keyless_stream
              (Some 0) None 1700000000000 (PDatetime 0) example_world
            = (fst keyless_run, fst (snd keyless_run), snd (snd keyless_run))"
    by (simp add: keyless_run_def)
  have v: "?rv = (fst ?rv, fst (snd ?rv), snd (snd ?rv))" by simp
  have md: "top_level_metadata keyless_stream = Some \<lparr>replication_key = None\<rparr>"
    by (simp add: keyless_stream_def)
  have c: "fst ?rv" "fst (snd ?rv) = PInt 1700000000000" "length (snd (snd ?rv)) = 1"
    by code_simp+
  have d: "calculate_destination_stream_name example_common keyless_stream = ''shop-orders''"
    by code_simp
  have b: "build_find_filter example_common
             (stream_bookmark (snd (snd ?rv) ! 0) (stream_id keyless_stream)) None = Inr []"
    by code_simp
  have e: "example_collection example_docs [] None [(None, ASCENDING)] = Inl (Raised ''TypeError'')"
    by code_simp
  note t = missing_replication_key_not_checked [OF r v refl, unfolded md option.case b sum.case e]
  from t c d md e show ?thesis by simp
qed

text \<open>
  C8 as it is written fails on a stream whose metadata designates no replication key:
  the first run writes ACTIVATE_VERSION and STATE, stores the version, builds the filter
  and calls \<open>find\<close> with the sort key \<^verbatim>\<open>None\<close>; what ends the run is the exception of the
  driver, raised by that call.
\<close>

theorem missing_replication_key_counterexample:
  "top_level_metadata keyless_stream = Some \<lparr>replication_key = None\<rparr> \<and>
   map fst (fst keyless_run) =
     [Emit (ActivateVersionMessage ''shop-orders'' (PInt 1700000000000)),
      Emit (StateMessage 1), Find [] None [(None, ASCENDING)]] \<and>
   snd (snd keyless_run) = Some (Raised ''TypeError'') \<and>
   get_bookmark (heap (fst (snd keyless_run))) 0 ''shop-orders'' ''version''
     = PInt 1700000000000"
proof -
  have 1: "top_level_metadata keyless_stream = Some \<lparr>replication_key = None\<rparr>"
    by (simp add: keyless_stream_def)
  have 2: "map fst (fst keyless_run) =
     [Emit (ActivateVersionMessage ''shop-orders'' (PInt 1700000000000)),
      Emit (StateMessage 1), Find [] None [(None, ASCENDING)]]"
    unfolding keyless_run_def by code_simp
  have 3: "snd (snd keyless_run) = Some (Raised ''TypeError'')"
    unfolding keyless_run_def by code_simp
  have 4: "get_bookmark (heap (fst (snd keyless_run))) 0 ''shop-orders'' ''version''
     = PInt 1700000000000"
    unfolding keyless_run_def by code_simp
  from 1 2 3 4 show ?thesis by simp
qed

end
